theory Spec2Isabelle
  imports
    Complex_Main
    "HOL-Library.Sublist"
    "HOL-Library.Char_ord"
    "HOL-Library.List_Lexorder"
    "HOL-Library.Product_Lexorder"
    "HOL-Library.Log_Nat"
begin

section \<open>Tables\<close>

text \<open>
  \<^verbatim>\<open>utils.py\<close> works on pandas data frames. A frame is modelled as its list of column
  labels, each with the dtype information the functions depend on (plain, or categorical
  with its declared categories), and its list of rows in positional order. A row is its
  index label and its values, aligned with the columns.

  A cell is a number, a string, or the missing value (pandas' \<^verbatim>\<open>NaN\<close>/\<^verbatim>\<open>None\<close>).
  A number is the rational value of the \<^verbatim>\<open>int64\<close> or \<^verbatim>\<open>float64\<close> the cell holds, so that
  Python's \<^verbatim>\<open>2 == 2.0\<close> holds; every \<^verbatim>\<open>float64\<close> operation rounds its result (see \<open>fl\<close>
  below).

  The pandas operations are modelled as pandas 2 documents them, with the defaults of
  the arguments that \<^verbatim>\<open>utils.py\<close> does not pass. An exception is a value of type
  \<open>error\<close>; a function that can raise returns \<open>error + result\<close>.
\<close>

datatype cell = Num rat | Str string | NaN

datatype dtype = Plain | Categorical "cell list" bool

type_synonym row = "cell \<times> cell list"

record frame =
  cols :: "(string \<times> dtype) list"
  rows :: "row list"

datatype error = KeyError | ValueError | TypeError | IndexError | InvalidIndexError

definition columns :: "frame \<Rightarrow> string list" where
  "columns df = map fst (cols df)"

fun index_of :: "'a \<Rightarrow> 'a list \<Rightarrow> nat option" where
  "index_of x [] = None"
| "index_of x (y # ys) = (if x = y then Some 0 else map_option Suc (index_of x ys))"

definition col_pos :: "frame \<Rightarrow> string \<Rightarrow> nat option" where
  "col_pos df c = index_of c (columns df)"

definition cell_at :: "nat \<Rightarrow> row \<Rightarrow> cell" where
  "cell_at i r = (if i < length (snd r) then snd r ! i else NaN)"

text \<open>The value of row \<open>r\<close> of \<open>df\<close> under the column labelled \<open>c\<close>.\<close>

definition at_col :: "frame \<Rightarrow> string \<Rightarrow> row \<Rightarrow> cell" where
  "at_col df c r = (case col_pos df c of None \<Rightarrow> NaN | Some i \<Rightarrow> cell_at i r)"

text \<open>
  Column labels are unique and every row has one value per column. Frames read from a file
  satisfy this; selecting a duplicated label in pandas yields a sub-frame instead of a
  series, which the functions below do not expect.
\<close>

definition wf_frame :: "frame \<Rightarrow> bool" where
  "wf_frame df \<longleftrightarrow>
     distinct (columns df) \<and> list_all (\<lambda>r. length (snd r) = length (cols df)) (rows df)"

subsection \<open>Selecting a column, comparing, masking\<close>

text \<open>\<^verbatim>\<open>df[c]\<close>: the values of column \<open>c\<close>, or \<^verbatim>\<open>KeyError\<close>.\<close>

definition getitem :: "frame \<Rightarrow> string \<Rightarrow> error + cell list" where
  "getitem df c =
     (case col_pos df c of
        None \<Rightarrow> Inl KeyError
      | Some i \<Rightarrow> Inr (map (cell_at i) (rows df)))"

text \<open>Elementwise \<^verbatim>\<open>==\<close>: a missing value equals nothing, not even itself.\<close>

definition cell_eq :: "cell \<Rightarrow> cell \<Rightarrow> bool" where
  "cell_eq a b \<longleftrightarrow> a \<noteq> NaN \<and> b \<noteq> NaN \<and> a = b"

definition series_eq :: "cell list \<Rightarrow> cell \<Rightarrow> bool list" where
  "series_eq xs c = map (\<lambda>x. cell_eq x c) xs"

definition series_and :: "bool list \<Rightarrow> bool list \<Rightarrow> bool list" where
  "series_and xs ys = map (\<lambda>(x, y). x \<and> y) (zip xs ys)"

text \<open>\<^verbatim>\<open>df[mask]\<close>: the rows whose mask entry is true, in order, with their index labels.\<close>

definition getitem_mask :: "frame \<Rightarrow> bool list \<Rightarrow> frame" where
  "getitem_mask df keep = df\<lparr>rows := map fst (filter snd (zip (rows df) keep))\<rparr>"

section \<open>Selector\<close>

text \<open>
  \<^verbatim>\<open>
  def filter_by_parent_edu(df, mother_code, father_code=None):
      if father_code is None:
          father_code = mother_code
      return df[(df["Mother_edu_code"] == mother_code) &
                (df["Father_edu_code"] == father_code)]
  \<close>
  An omitted \<^verbatim>\<open>father_code\<close> is \<open>None\<close>.
\<close>

definition filter_by_parent_edu :: "frame \<Rightarrow> cell \<Rightarrow> cell option \<Rightarrow> error + frame" where
  "filter_by_parent_edu df mother_code father_code =
     (let father_code = (case father_code of None \<Rightarrow> mother_code | Some f \<Rightarrow> f) in
      case getitem df ''Mother_edu_code'' of
        Inl e \<Rightarrow> Inl e
      | Inr mother \<Rightarrow>
          (case getitem df ''Father_edu_code'' of
             Inl e \<Rightarrow> Inl e
           | Inr father \<Rightarrow>
               Inr (getitem_mask df
                      (series_and (series_eq mother mother_code)
                                  (series_eq father father_code)))))"

text \<open>
  \<^verbatim>\<open>
  def filter_one_parent(df, parent, parent_code):
      return df[df[parent] == parent_code]
  \<close>
\<close>

definition filter_one_parent :: "frame \<Rightarrow> string \<Rightarrow> cell \<Rightarrow> error + frame" where
  "filter_one_parent df parent parent_code =
     (case getitem df parent of
        Inl e \<Rightarrow> Inl e
      | Inr col \<Rightarrow> Inr (getitem_mask df (series_eq col parent_code)))"

section \<open>Reshaper\<close>

text \<open>\<^verbatim>\<open>df[[c1, c2]]\<close>: the sub-frame of the listed columns, or \<^verbatim>\<open>KeyError\<close>.\<close>

definition getitem_list :: "frame \<Rightarrow> string list \<Rightarrow> error + frame" where
  "getitem_list df cs =
     (case those (map (col_pos df) cs) of
        None \<Rightarrow> Inl KeyError
      | Some ps \<Rightarrow>
          Inr \<lparr>cols = map (\<lambda>i. cols df ! i) ps,
               rows = map (\<lambda>r. (fst r, map (\<lambda>i. cell_at i r) ps)) (rows df)\<rparr>)"

text \<open>\<^verbatim>\<open>df.rename(columns={old: new})\<close>\<close>

definition rename_columns :: "frame \<Rightarrow> string \<Rightarrow> string \<Rightarrow> frame" where
  "rename_columns df old new =
     df\<lparr>cols := map (\<lambda>(c, d). (if c = old then new else c, d)) (cols df)\<rparr>"

text \<open>
  \<^verbatim>\<open>df[c] = values\<close>: an existing column keeps its position and gets the new values and
  dtype; a new column is appended. The values are matched to the rows by position (in
  every use below they carry the frame's own index).
\<close>

definition setitem :: "frame \<Rightarrow> string \<Rightarrow> dtype \<Rightarrow> cell list \<Rightarrow> frame" where
  "setitem df c d vals =
     (case col_pos df c of
        None \<Rightarrow>
          \<lparr>cols = cols df @ [(c, d)],
           rows = map (\<lambda>(r, v). (fst r, snd r @ [v])) (zip (rows df) vals)\<rparr>
      | Some i \<Rightarrow>
          \<lparr>cols = (cols df)[i := (c, d)],
           rows = map (\<lambda>(r, v). (fst r, (snd r)[i := v])) (zip (rows df) vals)\<rparr>)"

text \<open>\<^verbatim>\<open>df.assign(c=v)\<close> with a scalar \<open>v\<close>: the column \<open>c\<close> holds \<open>v\<close> in every row.\<close>

definition assign :: "frame \<Rightarrow> string \<Rightarrow> cell \<Rightarrow> frame" where
  "assign df c v = setitem df c Plain (replicate (length (rows df)) v)"

text \<open>
  \<^verbatim>\<open>pd.concat([a, b])\<close>: the rows of \<open>a\<close>, then the rows of \<open>b\<close>, index labels kept. Equal
  column lists are kept as they are; otherwise the columns are the union, missing values
  filled with \<^verbatim>\<open>NaN\<close>, which pandas refuses when a label is duplicated. A column keeps a
  categorical dtype only when both parts have the same one.
\<close>

definition concat_dtype :: "dtype \<Rightarrow> dtype \<Rightarrow> dtype" where
  "concat_dtype d d' = (if d = d' then d else Plain)"

definition dtype_of :: "frame \<Rightarrow> string \<Rightarrow> dtype option" where
  "dtype_of df c = map_option (\<lambda>i. snd (cols df ! i)) (col_pos df c)"

definition reindex_columns :: "frame \<Rightarrow> string list \<Rightarrow> row list" where
  "reindex_columns df cs = map (\<lambda>r. (fst r, map (\<lambda>c. at_col df c r) cs)) (rows df)"

definition pd_concat :: "frame \<Rightarrow> frame \<Rightarrow> error + frame" where
  "pd_concat a b =
     (if columns a = columns b then
        Inr \<lparr>cols = map (\<lambda>((c, d), (c', d')). (c, concat_dtype d d')) (zip (cols a) (cols b)),
             rows = rows a @ rows b\<rparr>
      else if distinct (columns a) \<and> distinct (columns b) then
        (let cs = columns a @ filter (\<lambda>c. c \<notin> set (columns a)) (columns b) in
         Inr \<lparr>cols = map (\<lambda>c. (c, case (dtype_of a c, dtype_of b c) of
                                       (Some d, Some d') \<Rightarrow> concat_dtype d d'
                                     | _ \<Rightarrow> Plain)) cs,
              rows = reindex_columns a cs @ reindex_columns b cs\<rparr>)
      else Inl InvalidIndexError)"

text \<open>\<^verbatim>\<open>xs[i]\<close> on a Python list, for \<open>i \<ge> 0\<close>.\<close>

definition list_item :: "'a list \<Rightarrow> nat \<Rightarrow> error + 'a" where
  "list_item xs i = (if i < length xs then Inr (xs ! i) else Inl IndexError)"

text \<open>
  \<^verbatim>\<open>
  def make_long(df, value_col, parent_cols=["Mother_edu_code", "Father_edu_code"]):
      long_df = pd.concat([
          df[[value_col, parent_cols[0]]]
              .rename(columns={parent_cols[0]: "Edu_code"})
              .assign(Parent="Mother"),
          df[[value_col, parent_cols[1]]]
              .rename(columns={parent_cols[1]: "Edu_code"})
              .assign(Parent="Father")
      ])
      return long_df
  \<close>
\<close>

definition default_parent_cols :: "string list" where
  "default_parent_cols = [''Mother_edu_code'', ''Father_edu_code'']"

definition parent_part :: "frame \<Rightarrow> string \<Rightarrow> string list \<Rightarrow> nat \<Rightarrow> string \<Rightarrow> error + frame" where
  "parent_part df value_col parent_cols i tag =
     (case list_item parent_cols i of
        Inl e \<Rightarrow> Inl e
      | Inr p \<Rightarrow>
          (case getitem_list df [value_col, p] of
             Inl e \<Rightarrow> Inl e
           | Inr sel \<Rightarrow> Inr (assign (rename_columns sel p ''Edu_code'') ''Parent'' (Str tag))))"

definition make_long :: "frame \<Rightarrow> string \<Rightarrow> string list \<Rightarrow> error + frame" where
  "make_long df value_col parent_cols =
     (case parent_part df value_col parent_cols 0 ''Mother'' of
        Inl e \<Rightarrow> Inl e
      | Inr mother \<Rightarrow>
          (case parent_part df value_col parent_cols 1 ''Father'' of
             Inl e \<Rightarrow> Inl e
           | Inr father \<Rightarrow> pd_concat mother father))"

text \<open>The fixture of \<^verbatim>\<open>tests/test_utils.py\<close>.\<close>

definition dummy_df :: frame where
  "dummy_df =
     \<lparr>cols = [(''Mother_edu_code'', Plain), (''Father_edu_code'', Plain),
              (''Target'', Plain), (''Age'', Plain)],
      rows = [(Num 0, [Num 2, Num 2, Str ''Graduate'', Num 20]),
              (Num 1, [Num 3, Num 3, Str ''Dropout'', Num 21]),
              (Num 2, [Num 2, Num 5, Str ''Graduate'', Num 22]),
              (Num 3, [Num 5, Num 5, Str ''Dropout'', Num 23])]\<rparr>"

text \<open>The long table that \<^verbatim>\<open>make_long(dummy_df(), "Age")\<close> returns.\<close>

definition dummy_long :: frame where
  "dummy_long =
     \<lparr>cols = [(''Age'', Plain), (''Edu_code'', Plain), (''Parent'', Plain)],
      rows = [(Num 0, [Num 20, Num 2, Str ''Mother'']),
              (Num 1, [Num 21, Num 3, Str ''Mother'']),
              (Num 2, [Num 22, Num 2, Str ''Mother'']),
              (Num 3, [Num 23, Num 5, Str ''Mother'']),
              (Num 0, [Num 20, Num 2, Str ''Father'']),
              (Num 1, [Num 21, Num 3, Str ''Father'']),
              (Num 2, [Num 22, Num 5, Str ''Father'']),
              (Num 3, [Num 23, Num 5, Str ''Father''])]\<rparr>"

section \<open>Categorizer\<close>

text \<open>\<^verbatim>\<open>series.map(d)\<close> with a dict: a value that is no key of the dict becomes \<^verbatim>\<open>NaN\<close>.\<close>

definition series_map :: "cell list \<Rightarrow> (cell \<rightharpoonup> cell) \<Rightarrow> cell list" where
  "series_map xs d = map (\<lambda>x. case d x of None \<Rightarrow> NaN | Some l \<Rightarrow> l) xs"

text \<open>
  \<^verbatim>\<open>pd.Categorical(values, categories=order, ordered=True)\<close>: the categories are \<open>order\<close>
  as given; a value outside them becomes \<^verbatim>\<open>NaN\<close>. Categories that repeat or contain a
  missing value are refused with \<^verbatim>\<open>ValueError\<close>.
\<close>

definition categorical :: "cell list \<Rightarrow> cell list \<Rightarrow> error + dtype \<times> cell list" where
  "categorical vals order =
     (if NaN \<in> set order \<or> \<not> distinct order then Inl ValueError
      else Inr (Categorical order True, map (\<lambda>v. if v \<in> set order then v else NaN) vals))"

text \<open>
  \<^verbatim>\<open>
  def map_and_order_edu(df, edu_col="Edu_code", label_col="Education Level",
                        labels=None, order=None):
      df[label_col] = df[edu_col].map(labels)
      df[label_col] = pd.Categorical(df[label_col], categories=order, ordered=True)
      return df
  \<close>
  The frame returned, for a call that passes \<^verbatim>\<open>labels\<close> and \<^verbatim>\<open>order\<close> (as every use does;
  the \<^verbatim>\<open>None\<close> defaults are not covered).
\<close>

definition map_and_order_edu ::
    "frame \<Rightarrow> string \<Rightarrow> string \<Rightarrow> (cell \<rightharpoonup> cell) \<Rightarrow> cell list \<Rightarrow> error + frame" where
  "map_and_order_edu df edu_col label_col labels order =
     (case getitem df edu_col of
        Inl e \<Rightarrow> Inl e
      | Inr codes \<Rightarrow>
          (let df1 = setitem df label_col Plain (series_map codes labels) in
           case getitem df1 label_col of
             Inl e \<Rightarrow> Inl e
           | Inr lab \<Rightarrow>
               (case categorical lab order of
                  Inl e \<Rightarrow> Inl e
                | Inr (d, vals) \<Rightarrow> Inr (setitem df1 label_col d vals))))"

text \<open>The module's label table and order.\<close>

definition EDU_LABELS :: "cell \<rightharpoonup> cell" where
  "EDU_LABELS =
     map_of [(Num 2, Str ''Some Level of Elementary School''),
             (Num 3, Str ''Completed Elementary School''),
             (Num 4, Str ''Completed Middle School''),
             (Num 5, Str ''Completed High School''),
             (Num 7, Str ''Completed their Bachelors Degree'')]"

definition EDU_ORDER :: "cell list" where
  "EDU_ORDER =
     [Str ''Some Level of Elementary School'',
      Str ''Completed Elementary School'',
      Str ''Completed Middle School'',
      Str ''Completed High School'',
      Str ''Completed their Bachelors Degree'']"

section \<open>Aggregator\<close>

subsection \<open>Grouping\<close>

text \<open>
  \<^verbatim>\<open>df.groupby(keys, observed=True)\<close> with the defaults \<^verbatim>\<open>sort=True\<close>, \<^verbatim>\<open>dropna=True\<close>:
  a row with a missing value in a key column is in no group; the groups are the key
  combinations that occur, in sorted order. A categorical key sorts by the position of
  the value in its categories, a plain key by value (numbers before strings).
\<close>

definition row_key :: "nat list \<Rightarrow> row \<Rightarrow> cell list" where
  "row_key ps r = map (\<lambda>i. cell_at i r) ps"

definition cell_rank :: "dtype \<Rightarrow> cell \<Rightarrow> nat \<times> rat \<times> string" where
  "cell_rank d c =
     (case d of
        Categorical cats _ \<Rightarrow>
          (case index_of c cats of Some i \<Rightarrow> (0, of_nat i, []) | None \<Rightarrow> (2, 0, []))
      | Plain \<Rightarrow>
          (case c of Num x \<Rightarrow> (0, x, []) | Str s \<Rightarrow> (1, 0, s) | NaN \<Rightarrow> (2, 0, [])))"

definition key_rank :: "dtype list \<Rightarrow> cell list \<Rightarrow> (nat \<times> rat \<times> string) list" where
  "key_rank ds k = map (\<lambda>(d, c). cell_rank d c) (zip ds k)"

text \<open>The distinct elements in order of first occurrence.\<close>

definition uniq :: "'a list \<Rightarrow> 'a list" where
  "uniq xs = rev (remdups (rev xs))"

definition observed_keys :: "frame \<Rightarrow> nat list \<Rightarrow> cell list list" where
  "observed_keys df ps =
     sort_key (key_rank (map (\<lambda>i. snd (cols df ! i)) ps))
       (uniq (map (row_key ps) (filter (\<lambda>r. NaN \<notin> set (row_key ps r)) (rows df))))"

record grouped =
  source :: frame
  key_cols :: "(string \<times> dtype) list"
  key_pos :: "nat list"
  group_list :: "cell list list"

definition groupby :: "frame \<Rightarrow> string list \<Rightarrow> error + grouped" where
  "groupby df keys =
     (case those (map (col_pos df) keys) of
        None \<Rightarrow> Inl KeyError
      | Some ps \<Rightarrow>
          Inr \<lparr>source = df, key_cols = map (\<lambda>i. cols df ! i) ps, key_pos = ps,
               group_list = observed_keys df ps\<rparr>)"

text \<open>The rows of a group.\<close>

definition members :: "grouped \<Rightarrow> cell list \<Rightarrow> row list" where
  "members g k = filter (\<lambda>r. row_key (key_pos g) r = k) (rows (source g))"

text \<open>
  The result of an aggregation before \<^verbatim>\<open>reset_index\<close>: one entry per group, indexed by
  the group's key.
\<close>

record keyed =
  index_names :: "(string \<times> dtype) list"
  value_names :: "string list"
  entries :: "(cell list \<times> cell list) list"

text \<open>\<^verbatim>\<open>.size()\<close>: the number of rows of each group, as a series without a name.\<close>

definition size_groups :: "grouped \<Rightarrow> keyed" where
  "size_groups g =
     \<lparr>index_names = key_cols g, value_names = [],
      entries = map (\<lambda>k. (k, [Num (of_nat (length (members g k)))])) (group_list g)\<rparr>"

text \<open>
  \<^verbatim>\<open>.reset_index()\<close>: the key levels become the leading columns, the index is
  \<open>0, 1, \<dots>\<close>. Inserting a label that is already there is a \<^verbatim>\<open>ValueError\<close>.
\<close>

definition reset_index :: "keyed \<Rightarrow> error + frame" where
  "reset_index s =
     (if \<not> distinct (map fst (index_names s) @ value_names s) then Inl ValueError
      else Inr \<lparr>cols = index_names s @ map (\<lambda>c. (c, Plain)) (value_names s),
                rows = map (\<lambda>(i, (k, vs)). (Num (of_nat i), k @ vs))
                         (enumerate 0 (entries s))\<rparr>)"

text \<open>\<^verbatim>\<open>series.reset_index(name=n)\<close>\<close>

definition reset_index_name :: "keyed \<Rightarrow> string \<Rightarrow> error + frame" where
  "reset_index_name s n = reset_index (s\<lparr>value_names := [n]\<rparr>)"

subsection \<open>Rounding to \<^verbatim>\<open>float64\<close>\<close>

text \<open>
  A \<^verbatim>\<open>float64\<close> operation returns the exact result rounded to the nearest number with a
  53-bit significand, ties to the even significand. \<open>binade a\<close> is the exponent \<open>e\<close> with
  \<open>2\<^sup>e \<le> a < 2\<^sup>e\<^sup>+\<^sup>1\<close>, so that the numbers of that binade are spaced \<open>2\<^sup>e\<^sup>-\<^sup>5\<^sup>2\<close> apart.
  Overflow and subnormal numbers (magnitudes outside \<open>2\<^sup>-\<^sup>1\<^sup>0\<^sup>2\<^sup>2 \<dots> 2\<^sup>1\<^sup>0\<^sup>2\<^sup>4\<close>) are not
  modelled.
\<close>

definition round_even :: "rat \<Rightarrow> int" where
  "round_even y =
     (let f = \<lfloor>y\<rfloor>; d = y - of_int f in
      if d < 1 / 2 then f else if 1 / 2 < d then f + 1 else if even f then f else f + 1)"

definition binade :: "rat \<Rightarrow> int" where
  "binade a =
     (let (p, q) = quotient_of a; e = bitlen p - bitlen q in
      if 2 powi e \<le> a then e else e - 1)"

definition fl :: "rat \<Rightarrow> rat" where
  "fl x =
     (if x = 0 then 0
      else (let a = \<bar>x\<bar>; ulp = 2 powi (binade a - 52) in
            sgn x * of_int (round_even (a / ulp)) * ulp))"

subsection \<open>Arithmetic on numeric columns\<close>

text \<open>The numbers of a column; missing values are skipped, as pandas' reductions do.\<close>

definition nums :: "cell list \<Rightarrow> rat list" where
  "nums cs = concat (map (\<lambda>c. case c of Num x \<Rightarrow> [x] | _ \<Rightarrow> []) cs)"

definition is_Str :: "cell \<Rightarrow> bool" where
  "is_Str c = (case c of Str _ \<Rightarrow> True | _ \<Rightarrow> False)"

text \<open>
  Elementwise \<^verbatim>\<open>/\<close> and \<^verbatim>\<open>*\<close> in \<^verbatim>\<open>float64\<close>: the exact quotient or product of the operands,
  rounded. The operands are \<^verbatim>\<open>float64\<close> values or integers that \<^verbatim>\<open>float64\<close> holds exactly
  (row counts, the scalar 100). A missing operand gives a missing result. A zero divisor
  (\<^verbatim>\<open>inf\<close> or \<^verbatim>\<open>NaN\<close> in floating point) is given as missing; \<^verbatim>\<open>compute_percent\<close> never
  divides by zero.
\<close>

definition cell_div :: "cell \<Rightarrow> cell \<Rightarrow> cell" where
  "cell_div a b =
     (case (a, b) of (Num x, Num y) \<Rightarrow> if y = 0 then NaN else Num (fl (x / y)) | _ \<Rightarrow> NaN)"

definition cell_mul :: "cell \<Rightarrow> cell \<Rightarrow> cell" where
  "cell_mul a b = (case (a, b) of (Num x, Num y) \<Rightarrow> Num (fl (x * y)) | _ \<Rightarrow> NaN)"

definition series_div :: "cell list \<Rightarrow> cell list \<Rightarrow> cell list" where
  "series_div xs ys = map (\<lambda>(x, y). cell_div x y) (zip xs ys)"

definition series_mul :: "cell list \<Rightarrow> cell \<Rightarrow> cell list" where
  "series_mul xs c = map (\<lambda>x. cell_mul x c) xs"

text \<open>
  \<^verbatim>\<open>"mean"\<close> and \<^verbatim>\<open>"median"\<close> of the non-missing numbers of a group, in \<^verbatim>\<open>float64\<close>; with
  none of them the result is missing. The group-by mean adds the values with a running
  compensation (Kahan summation: \<^verbatim>\<open>y = x - c; t = s + y; c = (t - s) - y; s = t\<close>) and
  divides the sum by their number. The median of an even number of values is the sum of
  the two middle ones divided by 2.
\<close>

fun kahan :: "rat \<times> rat \<Rightarrow> rat list \<Rightarrow> rat" where
  "kahan (s, c) [] = s"
| "kahan (s, c) (x # xs) =
     (let y = fl (x - c); t = fl (s + y) in kahan (t, fl (fl (t - s) - y)) xs)"

definition mean :: "rat list \<Rightarrow> cell" where
  "mean xs = (if xs = [] then NaN else Num (fl (kahan (0, 0) xs / of_nat (length xs))))"

definition median :: "rat list \<Rightarrow> cell" where
  "median xs =
     (if xs = [] then NaN
      else (let s = sort xs; n = length s in
            if odd n then Num (s ! (n div 2))
            else Num (fl (fl (s ! (n div 2) + s ! (n div 2 - 1)) / 2))))"

text \<open>
  \<^verbatim>\<open>g[c].transform("sum")\<close> on an integer column (the counts): for every row of the grouped
  frame the sum of column \<open>c\<close> over the row's group (missing for a row that is in no
  group). Integer sums are exact.
\<close>

definition transform_sum :: "grouped \<Rightarrow> string \<Rightarrow> error + cell list" where
  "transform_sum g c =
     (case col_pos (source g) c of
        None \<Rightarrow> Inl KeyError
      | Some j \<Rightarrow>
          Inr (map (\<lambda>r. let k = row_key (key_pos g) r in
                         if NaN \<in> set k then NaN
                         else Num (sum_list (nums (map (cell_at j) (members g k)))))
                 (rows (source g))))"

text \<open>
  \<^verbatim>\<open>g.agg(name=(column, function), ...)\<close> with the reductions \<^verbatim>\<open>"mean"\<close> and \<^verbatim>\<open>"median"\<close>:
  one value per group and named aggregation. A column that is absent, or is one of the
  grouping keys, is a \<^verbatim>\<open>KeyError\<close>. A column of categorical dtype does not support these
  reductions, whatever it holds, and a string among the grouped values of a plain column
  cannot be reduced: both are a \<^verbatim>\<open>TypeError\<close>.
\<close>

definition is_categorical :: "dtype \<Rightarrow> bool" where
  "is_categorical d = (case d of Categorical _ _ \<Rightarrow> True | Plain \<Rightarrow> False)"

definition agg :: "grouped \<Rightarrow> (string \<times> string \<times> (rat list \<Rightarrow> cell)) list \<Rightarrow> error + keyed" where
  "agg g specs =
     (case those (map (\<lambda>(n, c, f). if c \<in> set (map fst (key_cols g)) then None
                                    else col_pos (source g) c) specs) of
        None \<Rightarrow> Inl KeyError
      | Some js \<Rightarrow>
          if list_ex (\<lambda>j. is_categorical (snd (cols (source g) ! j))) js then Inl TypeError
          else if list_ex (\<lambda>k. list_ex (\<lambda>j. list_ex (\<lambda>r. is_Str (cell_at j r)) (members g k)) js)
                    (group_list g)
          then Inl TypeError
          else Inr \<lparr>index_names = key_cols g, value_names = map fst specs,
                    entries = map (\<lambda>k. (k, map (\<lambda>((n, c, f), j).
                                                  f (nums (map (cell_at j) (members g k))))
                                             (zip specs js)))
                                (group_list g)\<rparr>)"

text \<open>
  \<^verbatim>\<open>df.melt(id_vars, value_vars, var_name, value_name)\<close>: for each value column in turn,
  one row per row of \<open>df\<close> holding the id values, the value column's label and its value;
  the index is \<open>0, 1, \<dots>\<close>. A \<^verbatim>\<open>value_name\<close> that is a column of \<open>df\<close> is a \<^verbatim>\<open>ValueError\<close>.
\<close>

definition melt :: "frame \<Rightarrow> string list \<Rightarrow> string list \<Rightarrow> string \<Rightarrow> string \<Rightarrow> error + frame" where
  "melt df id_vars value_vars var_name value_name =
     (if value_name \<in> set (columns df) then Inl ValueError
      else case (those (map (col_pos df) id_vars), those (map (col_pos df) value_vars)) of
        (Some ids, Some vs) \<Rightarrow>
          Inr \<lparr>cols = map (\<lambda>i. cols df ! i) ids @ [(var_name, Plain), (value_name, Plain)],
               rows = map (\<lambda>(i, vals). (Num (of_nat i), vals))
                        (enumerate 0
                           (concat (map (\<lambda>(v, j). map (\<lambda>r. row_key ids r @ [Str v, cell_at j r])
                                                     (rows df))
                                      (zip value_vars vs))))\<rparr>
      | _ \<Rightarrow> Inl KeyError)"

subsection \<open>Summary statistics\<close>

text \<open>
  \<^verbatim>\<open>
  def compute_summary_stats(df, value_col):
      summary_df = df.groupby(["Parent", "Education Level"], observed=True).agg(
          Mean_Age=(value_col, "mean"),
          Median_Age=(value_col, "median")
      ).reset_index()
      summary_long = summary_df.melt(
          id_vars=["Parent", "Education Level"],
          value_vars=["Mean_Age", "Median_Age"],
          var_name="Statistic",
          value_name=value_col
      )
      summary_long["Statistic"] = summary_long["Statistic"].map(
          {"Mean_Age": "Mean", "Median_Age": "Median"})
      return summary_long
  \<close>
  With \<^verbatim>\<open>value_col = "Statistic"\<close> the melted frame has two columns of that label,
  \<^verbatim>\<open>summary_long["Statistic"]\<close> is a sub-frame and its \<^verbatim>\<open>map\<close> rejects the dict.
\<close>

definition compute_summary_stats :: "frame \<Rightarrow> string \<Rightarrow> error + frame" where
  "compute_summary_stats df value_col =
     (case groupby df [''Parent'', ''Education Level''] of
        Inl e \<Rightarrow> Inl e
      | Inr g \<Rightarrow>
     (case agg g [(''Mean_Age'', value_col, mean), (''Median_Age'', value_col, median)] of
        Inl e \<Rightarrow> Inl e
      | Inr a \<Rightarrow>
     (case reset_index a of
        Inl e \<Rightarrow> Inl e
      | Inr summary_df \<Rightarrow>
     (case melt summary_df [''Parent'', ''Education Level''] [''Mean_Age'', ''Median_Age'']
             ''Statistic'' value_col of
        Inl e \<Rightarrow> Inl e
      | Inr summary_long \<Rightarrow>
          if value_col = ''Statistic'' then Inl TypeError
          else
     (case getitem summary_long ''Statistic'' of
        Inl e \<Rightarrow> Inl e
      | Inr statistic \<Rightarrow>
          Inr (setitem summary_long ''Statistic'' Plain
                 (series_map statistic
                    (map_of [(Str ''Mean_Age'', Str ''Mean''),
                             (Str ''Median_Age'', Str ''Median'')]))))))))"

subsection \<open>Outcome percentages\<close>

text \<open>
  \<^verbatim>\<open>
  def compute_percent(df, target_col="Target"):
      counts = (
          df.groupby(["Parent", "Education Level", target_col], observed=True)
          .size()
          .reset_index(name="Count")
      )
      counts["Percent"] = counts["Count"] / counts.groupby(
          ["Parent", "Education Level"], observed=True)["Count"].transform("sum") * 100
      return counts
  \<close>
  \<open>add_percent\<close> is the second statement, on the frame \<^verbatim>\<open>counts\<close> of the first.
\<close>

definition add_percent :: "frame \<Rightarrow> error + frame" where
  "add_percent counts =
     (case getitem counts ''Count'' of
        Inl e \<Rightarrow> Inl e
      | Inr count \<Rightarrow>
     (case groupby counts [''Parent'', ''Education Level''] of
        Inl e \<Rightarrow> Inl e
      | Inr g \<Rightarrow>
     (case transform_sum g ''Count'' of
        Inl e \<Rightarrow> Inl e
      | Inr totals \<Rightarrow>
          Inr (setitem counts ''Percent'' Plain
                 (series_mul (series_div count totals) (Num 100))))))"

definition compute_percent :: "frame \<Rightarrow> string \<Rightarrow> error + frame" where
  "compute_percent df target_col =
     (case groupby df [''Parent'', ''Education Level'', target_col] of
        Inl e \<Rightarrow> Inl e
      | Inr g \<Rightarrow>
     (case reset_index_name (size_groups g) ''Count'' of
        Inl e \<Rightarrow> Inl e
      | Inr counts \<Rightarrow> add_percent counts))"

text \<open>The table of \<^verbatim>\<open>test_compute_percent_sums_to_100\<close>.\<close>

definition percent_df :: frame where
  "percent_df =
     \<lparr>cols = [(''Parent'', Plain), (''Age'', Plain), (''Edu_code'', Plain),
              (''Education Level'', Plain), (''Target'', Plain)],
      rows = [(Num 0, [Str ''Mother'', Num 20, Num 2, Str ''Test Level'', Str ''A'']),
              (Num 1, [Str ''Mother'', Num 21, Num 3, Str ''Test Level'', Str ''B'']),
              (Num 2, [Str ''Father'', Num 22, Num 5, Str ''Test Level'', Str ''A'']),
              (Num 3, [Str ''Father'', Num 23, Num 5, Str ''Test Level'', Str ''B''])]\<rparr>"

text \<open>The table of \<^verbatim>\<open>test_map_and_order_edu\<close>.\<close>

definition codes_df :: frame where
  "codes_df = \<lparr>cols = [(''Edu_code'', Plain)],
               rows = [(Num 0, [Num 2]), (Num 1, [Num 3]), (Num 2, [Num 5])]\<rparr>"

subsection \<open>Reading the result tables\<close>

text \<open>
  The records of the group \<open>(p, e)\<close> of a table with the columns \<^verbatim>\<open>Parent\<close> and
  \<^verbatim>\<open>Education Level\<close>, and the number in a numeric cell.
\<close>

definition group_records :: "frame \<Rightarrow> cell \<Rightarrow> cell \<Rightarrow> row list" where
  "group_records df p e =
     filter (\<lambda>r. at_col df ''Parent'' r = p \<and> at_col df ''Education Level'' r = e) (rows df)"

definition num_of :: "cell \<Rightarrow> rat" where
  "num_of c = (case c of Num x \<Rightarrow> x | _ \<Rightarrow> 0)"

text \<open>
  The table without the rows that have a missing value in column \<open>c\<close>
  (\<^verbatim>\<open>df.dropna(subset=[c])\<close>), to state that such rows do not count.
\<close>

definition drop_missing :: "frame \<Rightarrow> string \<Rightarrow> frame" where
  "drop_missing df c = df\<lparr>rows := filter (\<lambda>r. at_col df c r \<noteq> NaN) (rows df)\<rparr>"

text \<open>A long table with a code (9) that the module's label table does not map.\<close>

definition unmapped_df :: frame where
  "unmapped_df =
     \<lparr>cols = [(''Target'', Plain), (''Edu_code'', Plain), (''Parent'', Plain)],
      rows = [(Num 0, [Str ''Graduate'', Num 2, Str ''Mother'']),
              (Num 1, [Str ''Dropout'', Num 9, Str ''Mother'']),
              (Num 0, [Str ''Graduate'', Num 2, Str ''Father'']),
              (Num 1, [Str ''Dropout'', Num 3, Str ''Father''])]\<rparr>"

text \<open>The same table categorized with the module's labels and order.\<close>

definition unmapped_categorized :: frame where
  "unmapped_categorized =
     \<lparr>cols = [(''Target'', Plain), (''Edu_code'', Plain), (''Parent'', Plain),
              (''Education Level'', Categorical EDU_ORDER True)],
      rows = [(Num 0, [Str ''Graduate'', Num 2, Str ''Mother'',
                       Str ''Some Level of Elementary School'']),
              (Num 1, [Str ''Dropout'', Num 9, Str ''Mother'', NaN]),
              (Num 0, [Str ''Graduate'', Num 2, Str ''Father'',
                       Str ''Some Level of Elementary School'']),
              (Num 1, [Str ''Dropout'', Num 3, Str ''Father'',
                       Str ''Completed Elementary School''])]\<rparr>"




text \<open>A long table with a group of three records and a group of two.\<close>

definition ages_df :: frame where
  "ages_df =
     \<lparr>cols = [(''Parent'', Plain), (''Education Level'', Plain), (''Age'', Plain)],
      rows = [(Num 0, [Str ''Mother'', Str ''Test Level'', Num 20]),
              (Num 1, [Str ''Mother'', Str ''Test Level'', Num 21]),
              (Num 2, [Str ''Mother'', Str ''Test Level'', Num 23]),
              (Num 3, [Str ''Father'', Str ''Test Level'', Num 22]),
              (Num 4, [Str ''Father'', Str ''Test Level'', Num 23])]\<rparr>"

text \<open>
  \<^verbatim>\<open>df.groupby(keys, observed=True)[c].sum()\<close> on an integer column: the groups' keys with
  the sum of column \<open>c\<close> over each group.
\<close>

definition groupby_sum :: "frame \<Rightarrow> string list \<Rightarrow> string \<Rightarrow> error + (cell list \<times> cell) list" where
  "groupby_sum df keys c =
     (case groupby df keys of
        Inl e \<Rightarrow> Inl e
      | Inr g \<Rightarrow>
          (case col_pos df c of
             None \<Rightarrow> Inl KeyError
           | Some j \<Rightarrow>
               Inr (map (\<lambda>k. (k, Num (sum_list (nums (map (cell_at j) (members g k))))))
                      (group_list g))))"

text \<open>The records of the group \<open>(p, e)\<close> that have a value in the target column \<open>t\<close>.\<close>

definition counted_records :: "frame \<Rightarrow> string \<Rightarrow> cell \<Rightarrow> cell \<Rightarrow> row list" where
  "counted_records df t p e = filter (\<lambda>r. at_col df t r \<noteq> NaN) (group_records df p e)"

text \<open>A group of two records, one of them without a target value.\<close>

definition df_miss :: frame where
  "df_miss =
     \<lparr>cols = [(''Parent'', Plain), (''Education Level'', Plain), (''Target'', Plain)],
      rows = [(Num 0, [Str ''Mother'', Str ''Test Level'', Str ''A'']),
              (Num 1, [Str ''Mother'', Str ''Test Level'', NaN])]\<rparr>"

text \<open>A group of three records with three targets: each is a third of the group.\<close>

definition thirds_df :: frame where
  "thirds_df =
     \<lparr>cols = [(''Parent'', Plain), (''Education Level'', Plain), (''Target'', Plain)],
      rows = [(Num 0, [Str ''Mother'', Str ''Test Level'', Str ''A'']),
              (Num 1, [Str ''Mother'', Str ''Test Level'', Str ''B'']),
              (Num 2, [Str ''Mother'', Str ''Test Level'', Str ''C''])]\<rparr>"

text \<open>What \<^verbatim>\<open>compute_percent\<close> returns for the table of its test.\<close>

definition percent_out :: frame where
  "percent_out =
     \<lparr>cols = [(''Parent'', Plain), (''Education Level'', Plain), (''Target'', Plain),
              (''Count'', Plain), (''Percent'', Plain)],
      rows = [(Num 0, [Str ''Father'', Str ''Test Level'', Str ''A'', Num 1, Num 50]),
              (Num 1, [Str ''Father'', Str ''Test Level'', Str ''B'', Num 1, Num 50]),
              (Num 2, [Str ''Mother'', Str ''Test Level'', Str ''A'', Num 1, Num 50]),
              (Num 3, [Str ''Mother'', Str ''Test Level'', Str ''B'', Num 1, Num 50])]\<rparr>"

section \<open>Tables as objects\<close>

text \<open>
  A data frame is a mutable object and the functions receive and return references. To
  state which calls change their argument, the same function bodies are read once more
  over a store of frames: a reference is a position in the store, an operation that
  returns a frame (\<^verbatim>\<open>reset_index\<close>, \<^verbatim>\<open>melt\<close>) allocates a new one, and \<^verbatim>\<open>df[c] = values\<close>
  updates the frame at \<open>df\<close> in place. Series and group-by objects are values computed from
  the frame as it is when they are used. A call returns its result, or the error raised,
  and the store it leaves.
\<close>

type_synonym ref = nat

type_synonym store = "frame list"

definition new_frame :: "store \<Rightarrow> frame \<Rightarrow> ref \<times> store" where
  "new_frame s f = (length s, s @ [f])"

definition setitem_obj :: "store \<Rightarrow> ref \<Rightarrow> string \<Rightarrow> dtype \<Rightarrow> cell list \<Rightarrow> store" where
  "setitem_obj s df c d vals = s[df := setitem (s ! df) c d vals]"

definition map_and_order_edu_obj ::
    "store \<Rightarrow> ref \<Rightarrow> string \<Rightarrow> string \<Rightarrow> (cell \<rightharpoonup> cell) \<Rightarrow> cell list \<Rightarrow> (error + ref) \<times> store" where
  "map_and_order_edu_obj s df edu_col label_col labels order =
     (case getitem (s ! df) edu_col of
        Inl e \<Rightarrow> (Inl e, s)
      | Inr codes \<Rightarrow>
          (let s1 = setitem_obj s df label_col Plain (series_map codes labels) in
           case getitem (s1 ! df) label_col of
             Inl e \<Rightarrow> (Inl e, s1)
           | Inr lab \<Rightarrow>
               (case categorical lab order of
                  Inl e \<Rightarrow> (Inl e, s1)
                | Inr (d, vals) \<Rightarrow> (Inr df, setitem_obj s1 df label_col d vals))))"

definition compute_summary_stats_obj :: "store \<Rightarrow> ref \<Rightarrow> string \<Rightarrow> (error + ref) \<times> store" where
  "compute_summary_stats_obj s df value_col =
     (case groupby (s ! df) [''Parent'', ''Education Level''] of
        Inl e \<Rightarrow> (Inl e, s)
      | Inr g \<Rightarrow>
     (case agg g [(''Mean_Age'', value_col, mean), (''Median_Age'', value_col, median)] of
        Inl e \<Rightarrow> (Inl e, s)
      | Inr a \<Rightarrow>
     (case reset_index a of
        Inl e \<Rightarrow> (Inl e, s)
      | Inr f1 \<Rightarrow>
          (let (summary_df, s1) = new_frame s f1 in
     (case melt (s1 ! summary_df) [''Parent'', ''Education Level''] [''Mean_Age'', ''Median_Age'']
             ''Statistic'' value_col of
        Inl e \<Rightarrow> (Inl e, s1)
      | Inr f2 \<Rightarrow>
          (let (summary_long, s2) = new_frame s1 f2 in
           if value_col = ''Statistic'' then (Inl TypeError, s2)
           else
     (case getitem (s2 ! summary_long) ''Statistic'' of
        Inl e \<Rightarrow> (Inl e, s2)
      | Inr statistic \<Rightarrow>
          (Inr summary_long,
           setitem_obj s2 summary_long ''Statistic'' Plain
             (series_map statistic
                (map_of [(Str ''Mean_Age'', Str ''Mean''),
                         (Str ''Median_Age'', Str ''Median'')]))))))))))"

definition add_percent_obj :: "store \<Rightarrow> ref \<Rightarrow> error + store" where
  "add_percent_obj s counts =
     (case getitem (s ! counts) ''Count'' of
        Inl e \<Rightarrow> Inl e
      | Inr count \<Rightarrow>
     (case groupby (s ! counts) [''Parent'', ''Education Level''] of
        Inl e \<Rightarrow> Inl e
      | Inr g \<Rightarrow>
     (case transform_sum g ''Count'' of
        Inl e \<Rightarrow> Inl e
      | Inr totals \<Rightarrow>
          Inr (setitem_obj s counts ''Percent'' Plain
                 (series_mul (series_div count totals) (Num 100))))))"

definition compute_percent_obj :: "store \<Rightarrow> ref \<Rightarrow> string \<Rightarrow> (error + ref) \<times> store" where
  "compute_percent_obj s df target_col =
     (case groupby (s ! df) [''Parent'', ''Education Level'', target_col] of
        Inl e \<Rightarrow> (Inl e, s)
      | Inr g \<Rightarrow>
     (case reset_index_name (size_groups g) ''Count'' of
        Inl e \<Rightarrow> (Inl e, s)
      | Inr f \<Rightarrow>
          (let (counts, s1) = new_frame s f in
           case add_percent_obj s1 counts of
             Inl e \<Rightarrow> (Inl e, s1)
           | Inr s2 \<Rightarrow> (Inr counts, s2))))"

text \<open>
  What a call leaves of the store it found: every frame that existed is unchanged, and a
  frame returned is a new one.
\<close>

definition preserves :: "store \<Rightarrow> (error + ref) \<times> store \<Rightarrow> bool" where
  "preserves s out \<longleftrightarrow>
     length s \<le> length (snd out) \<and>
     (\<forall>r<length s. snd out ! r = s ! r) \<and>
     (case fst out of Inl e \<Rightarrow> True | Inr q \<Rightarrow> length s \<le> q \<and> q < length (snd out))"

section \<open>Properties of the selector\<close>

lemma index_of_None_iff: "index_of x xs = None \<longleftrightarrow> x \<notin> set xs"
  by (induction xs) auto

lemma index_of_Some_lt: "index_of x xs = Some i \<Longrightarrow> i < length xs \<and> xs ! i = x"
  by (induction xs arbitrary: i) (auto split: if_splits)

lemma index_of_mem: "x \<in> set xs \<Longrightarrow> \<exists>i. index_of x xs = Some i"
  using index_of_None_iff [of x xs] by (cases "index_of x xs") auto

lemma col_pos_mem: "c \<in> set (columns df) \<Longrightarrow> \<exists>i. col_pos df c = Some i"
  unfolding col_pos_def by (rule index_of_mem)

lemma getitem_present:
  "c \<in> set (columns df) \<Longrightarrow> getitem df c = Inr (map (at_col df c) (rows df))"
  using col_pos_mem [of c df] by (auto simp: getitem_def at_col_def)

lemma getitem_absent: "c \<notin> set (columns df) \<Longrightarrow> getitem df c = Inl KeyError"
  by (simp add: getitem_def col_pos_def index_of_None_iff [THEN iffD2])

lemma mask_filter: "map fst (filter snd (zip xs (map P xs))) = filter P xs"
  by (induction xs) auto

lemma mask_and_filter:
  "map fst (filter snd (zip xs (series_and (map P xs) (map Q xs)))) = filter (\<lambda>x. P x \<and> Q x) xs"
  unfolding series_and_def by (induction xs) auto

lemma filter_by_parent_edu_rows:
  assumes "''Mother_edu_code'' \<in> set (columns df)" and "''Father_edu_code'' \<in> set (columns df)"
  shows "filter_by_parent_edu df m fo =
           Inr (df\<lparr>rows := filter (\<lambda>r. cell_eq (at_col df ''Mother_edu_code'' r) m \<and>
                                      cell_eq (at_col df ''Father_edu_code'' r)
                                        (case fo of None \<Rightarrow> m | Some f \<Rightarrow> f))
                                (rows df)\<rparr>)"
  unfolding filter_by_parent_edu_def Let_def
  by (simp add: getitem_present assms getitem_mask_def series_eq_def map_map comp_def
        mask_and_filter [of "rows df" "\<lambda>r. cell_eq (at_col df ''Mother_edu_code'' r) m"])

lemma filter_one_parent_rows:
  assumes "p \<in> set (columns df)"
  shows "filter_one_parent df p c =
           Inr (df\<lparr>rows := filter (\<lambda>r. cell_eq (at_col df p r) c) (rows df)\<rparr>)"
  unfolding filter_one_parent_def
  by (simp add: getitem_present assms getitem_mask_def series_eq_def map_map comp_def
        mask_filter [of "rows df" "\<lambda>r. cell_eq (at_col df p r) c"])

lemma wf_dummy_df: "wf_frame dummy_df"
  by (simp add: wf_frame_def dummy_df_def columns_def)

lemma columns_dummy_df:
  "columns dummy_df = [''Mother_edu_code'', ''Father_edu_code'', ''Target'', ''Age'']"
  by (simp add: dummy_df_def columns_def)

text \<open>
  Claim C3. With both parent columns present and codes that are not the missing value,
  \<^verbatim>\<open>filter_by_parent_edu(df, m, f)\<close> succeeds, keeps the columns, and returns exactly the
  rows of \<open>df\<close> whose \<^verbatim>\<open>Mother_edu_code\<close> is \<open>m\<close> and whose \<^verbatim>\<open>Father_edu_code\<close> is \<open>f\<close>:
  every returned row is such a row and every such row is returned. With \<open>f\<close> omitted the
  call is the one with \<open>f = m\<close>.
\<close>

theorem filter_by_parent_edu_exact:
  assumes "wf_frame df"
    and "''Mother_edu_code'' \<in> set (columns df)" and "''Father_edu_code'' \<in> set (columns df)"
    and "m \<noteq> NaN" and "f \<noteq> NaN"
  shows "(\<exists>out. filter_by_parent_edu df m (Some f) = Inr out \<and> cols out = cols df \<and>
            (\<forall>r. r \<in> set (rows out) \<longleftrightarrow>
                   r \<in> set (rows df) \<and> at_col df ''Mother_edu_code'' r = m \<and>
                   at_col df ''Father_edu_code'' r = f)) \<and>
         filter_by_parent_edu df m None = filter_by_parent_edu df m (Some m)"
  using assms(4,5)
  by (auto simp: filter_by_parent_edu_rows [OF assms(2,3)] cell_eq_def)

theorem filter_by_parent_edu_exact_witness:
  "(\<exists>out. filter_by_parent_edu dummy_df (Num 2) (Some (Num 2)) = Inr out \<and>
      cols out = cols dummy_df \<and>
      (\<forall>r. r \<in> set (rows out) \<longleftrightarrow>
             r \<in> set (rows dummy_df) \<and> at_col dummy_df ''Mother_edu_code'' r = Num 2 \<and>
             at_col dummy_df ''Father_edu_code'' r = Num 2)) \<and>
   filter_by_parent_edu dummy_df (Num 2) None =
     filter_by_parent_edu dummy_df (Num 2) (Some (Num 2)) \<and>
   filter_by_parent_edu dummy_df (Num 2) None =
     Inr (dummy_df\<lparr>rows := [(Num 0, [Num 2, Num 2, Str ''Graduate'', Num 20])]\<rparr>)"
proof -
  have h: "wf_frame dummy_df" "''Mother_edu_code'' \<in> set (columns dummy_df)"
    "''Father_edu_code'' \<in> set (columns dummy_df)" "Num 2 \<noteq> NaN"
    by (simp_all add: wf_dummy_df columns_dummy_df)
  have "filter_by_parent_edu dummy_df (Num 2) None =
     Inr (dummy_df\<lparr>rows := [(Num 0, [Num 2, Num 2, Str ''Graduate'', Num 20])]\<rparr>)"
    by code_simp
  with filter_by_parent_edu_exact [OF h h(4)] show ?thesis by blast
qed

text \<open>
  Claim C10. With the columns present, both filters succeed and return the columns of the
  input with a subsequence of its rows: every output row is an input row (index label
  and values), no input row is taken twice, and the order is the input's.
\<close>

theorem filters_return_subsequence:
  assumes "wf_frame df"
    and "''Mother_edu_code'' \<in> set (columns df)" and "''Father_edu_code'' \<in> set (columns df)"
    and "p \<in> set (columns df)"
  shows "\<exists>out1 out2.
           filter_by_parent_edu df m fo = Inr out1 \<and> cols out1 = cols df \<and>
           subseq (rows out1) (rows df) \<and>
           filter_one_parent df p c = Inr out2 \<and> cols out2 = cols df \<and>
           subseq (rows out2) (rows df)"
  by (simp add: filter_by_parent_edu_rows [OF assms(2,3)] filter_one_parent_rows [OF assms(4)])

theorem filters_return_subsequence_witness:
  "\<exists>out1 out2.
     filter_by_parent_edu dummy_df (Num 2) None = Inr out1 \<and> cols out1 = cols dummy_df \<and>
     subseq (rows out1) (rows dummy_df) \<and>
     filter_one_parent dummy_df ''Father_edu_code'' (Num 5) = Inr out2 \<and>
     cols out2 = cols dummy_df \<and> subseq (rows out2) (rows dummy_df)"
  using filters_return_subsequence [of dummy_df "''Father_edu_code''" "Num 2" None "Num 5"]
  by (simp add: wf_dummy_df columns_dummy_df)


section \<open>Properties of the reshaper\<close>

lemma at_col_pos: "col_pos df c = Some i \<Longrightarrow> at_col df c r = cell_at i r"
  by (simp add: at_col_def)

lemma col_pos_Some:
  assumes "col_pos df c = Some i"
  shows "i < length (cols df)" and "cols df ! i = (c, snd (cols df ! i))"
proof -
  from assms have *: "i < length (columns df) \<and> columns df ! i = c"
    unfolding col_pos_def by (rule index_of_Some_lt)
  then show "i < length (cols df)" by (simp add: columns_def)
  with * have "fst (cols df ! i) = c" by (simp add: columns_def)
  then show "cols df ! i = (c, snd (cols df ! i))" by (metis prod.collapse)
qed

lemma parent_part_plain:
  assumes "col_pos df v = Some i" and "col_pos df p = Some j"
    and "list_item ps k = Inr p" and "v \<noteq> p" and "v \<noteq> ''Parent''"
  shows "parent_part df v ps k tag =
           Inr \<lparr>cols = [(v, snd (cols df ! i)), (''Edu_code'', snd (cols df ! j)), (''Parent'', Plain)],
                rows = map (\<lambda>r. (fst r, [at_col df v r, at_col df p r, Str tag])) (rows df)\<rparr>"
proof -
  obtain dv dp where ci: "cols df ! i = (v, dv)" and cj: "cols df ! j = (p, dp)"
    using col_pos_Some(2) [OF assms(1)] col_pos_Some(2) [OF assms(2)] by blast
  have sel: "getitem_list df [v, p] =
          Inr \<lparr>cols = [(v, dv), (p, dp)],
               rows = map (\<lambda>r. (fst r, [at_col df v r, at_col df p r])) (rows df)\<rparr>"
    using assms(1,2) by (simp add: getitem_list_def at_col_pos ci cj)
  show ?thesis
    unfolding parent_part_def
    using assms(4,5)
    by (simp add: assms(3) sel rename_columns_def assign_def setitem_def col_pos_def
          columns_def ci cj zip_replicate2 map_zip_map)
qed

lemma parent_part_value_is_Parent:
  assumes "col_pos df ''Parent'' = Some i" and "col_pos df p = Some j"
    and "list_item ps k = Inr p" and "p \<noteq> ''Parent''"
  shows "parent_part df ''Parent'' ps k tag =
           Inr \<lparr>cols = [(''Parent'', Plain), (''Edu_code'', snd (cols df ! j))],
                rows = map (\<lambda>r. (fst r, [Str tag, at_col df p r])) (rows df)\<rparr>"
proof -
  obtain dv dp where ci: "cols df ! i = (''Parent'', dv)" and cj: "cols df ! j = (p, dp)"
    using col_pos_Some(2) [OF assms(1)] col_pos_Some(2) [OF assms(2)] by blast
  have sel: "getitem_list df [''Parent'', p] =
          Inr \<lparr>cols = [(''Parent'', dv), (p, dp)],
               rows = map (\<lambda>r. (fst r, [at_col df ''Parent'' r, at_col df p r])) (rows df)\<rparr>"
    using assms(1,2) by (simp add: getitem_list_def at_col_pos ci cj)
  show ?thesis
    unfolding parent_part_def
    using assms(4)
    by (simp add: assms(3) sel rename_columns_def assign_def setitem_def col_pos_def
          columns_def ci cj zip_replicate2 map_zip_map)
qed


lemma list_item_default:
  "list_item default_parent_cols 0 = Inr ''Mother_edu_code''"
  "list_item default_parent_cols (Suc 0) = Inr ''Father_edu_code''"
  by (simp_all add: list_item_def default_parent_cols_def)

lemma make_long_plain:
  assumes "col_pos df v = Some i"
    and "col_pos df ''Mother_edu_code'' = Some j" and "col_pos df ''Father_edu_code'' = Some k"
    and "v \<noteq> ''Mother_edu_code''" and "v \<noteq> ''Father_edu_code''" and "v \<noteq> ''Parent''"
  shows "make_long df v default_parent_cols =
     Inr \<lparr>cols = [(v, snd (cols df ! i)),
                  (''Edu_code'', concat_dtype (snd (cols df ! j)) (snd (cols df ! k))),
                  (''Parent'', Plain)],
          rows = map (\<lambda>r. (fst r, [at_col df v r, at_col df ''Mother_edu_code'' r, Str ''Mother'']))
                   (rows df) @
                 map (\<lambda>r. (fst r, [at_col df v r, at_col df ''Father_edu_code'' r, Str ''Father'']))
                   (rows df)\<rparr>"
  unfolding make_long_def
  by (simp add: parent_part_plain [OF assms(1) assms(2) list_item_default(1) assms(4) assms(6)]
        parent_part_plain [OF assms(1) assms(3) list_item_default(2) assms(5) assms(6)]
        pd_concat_def columns_def concat_dtype_def)

lemma make_long_value_is_Parent:
  assumes "col_pos df ''Parent'' = Some i"
    and "col_pos df ''Mother_edu_code'' = Some j" and "col_pos df ''Father_edu_code'' = Some k"
  shows "make_long df ''Parent'' default_parent_cols =
     Inr \<lparr>cols = [(''Parent'', Plain),
                  (''Edu_code'', concat_dtype (snd (cols df ! j)) (snd (cols df ! k)))],
          rows = map (\<lambda>r. (fst r, [Str ''Mother'', at_col df ''Mother_edu_code'' r])) (rows df) @
                 map (\<lambda>r. (fst r, [Str ''Father'', at_col df ''Father_edu_code'' r])) (rows df)\<rparr>"
  unfolding make_long_def
  by (simp add: parent_part_value_is_Parent [OF assms(1) assms(2) list_item_default(1)]
        parent_part_value_is_Parent [OF assms(1) assms(3) list_item_default(2)]
        pd_concat_def columns_def concat_dtype_def)

lemma make_long_dummy: "make_long dummy_df ''Age'' default_parent_cols = Inr dummy_long"
  by code_simp

text \<open>
  Claim C2. For a wide table with \<open>n\<close> rows and a value column \<open>v\<close> of it (a column other
  than the two parent columns and not named \<^verbatim>\<open>Edu_code\<close>), \<^verbatim>\<open>make_long(df, v)\<close> succeeds
  with \<open>2n\<close> rows. The rows tagged \<^verbatim>\<open>Parent = "Mother"\<close> are, in order, one per wide row,
  with that row's index label and its \<^verbatim>\<open>Mother_edu_code\<close> as \<^verbatim>\<open>Edu_code\<close>; the rows tagged
  \<^verbatim>\<open>"Father"\<close> likewise with \<^verbatim>\<open>Father_edu_code\<close>.
\<close>

theorem make_long_doubles_rows:
  assumes "wf_frame df"
    and "''Mother_edu_code'' \<in> set (columns df)" and "''Father_edu_code'' \<in> set (columns df)"
    and "v \<in> set (columns df)"
    and "v \<notin> {''Mother_edu_code'', ''Father_edu_code'', ''Edu_code''}"
  shows "\<exists>out. make_long df v default_parent_cols = Inr out \<and>
           length (rows out) = 2 * length (rows df) \<and>
           map (\<lambda>r. (fst r, at_col out ''Edu_code'' r))
               (filter (\<lambda>r. at_col out ''Parent'' r = Str ''Mother'') (rows out)) =
             map (\<lambda>r. (fst r, at_col df ''Mother_edu_code'' r)) (rows df) \<and>
           map (\<lambda>r. (fst r, at_col out ''Edu_code'' r))
               (filter (\<lambda>r. at_col out ''Parent'' r = Str ''Father'') (rows out)) =
             map (\<lambda>r. (fst r, at_col df ''Father_edu_code'' r)) (rows df)"
proof -
  obtain i j k where pos: "col_pos df v = Some i"
      "col_pos df ''Mother_edu_code'' = Some j" "col_pos df ''Father_edu_code'' = Some k"
    using assms(2,3,4) col_pos_mem by blast
  let ?M = "at_col df ''Mother_edu_code''" and ?F = "at_col df ''Father_edu_code''"
  have "\<exists>out mk.
          make_long df v default_parent_cols = Inr out \<and>
          rows out = map (\<lambda>r. (fst r, mk (Str ''Mother'') (?M r) r)) (rows df) @
                     map (\<lambda>r. (fst r, mk (Str ''Father'') (?F r) r)) (rows df) \<and>
          (\<forall>t c r. at_col out ''Edu_code'' (fst r, mk t c r) = c) \<and>
          (\<forall>t c r. at_col out ''Parent'' (fst r, mk t c r) = t)"
  proof (cases "v = ''Parent''")
    case True
    let ?out = "\<lparr>cols = [(''Parent'', Plain),
                  (''Edu_code'', concat_dtype (snd (cols df ! j)) (snd (cols df ! k)))],
          rows = map (\<lambda>r. (fst r, [Str ''Mother'', ?M r])) (rows df) @
                 map (\<lambda>r. (fst r, [Str ''Father'', ?F r])) (rows df)\<rparr>"
    have "make_long df v default_parent_cols = Inr ?out"
      using make_long_value_is_Parent [OF pos(1) [unfolded True] pos(2) pos(3)] True by simp
    moreover have "at_col ?out ''Edu_code'' (x, [t, c]) = c" 
      and "at_col ?out ''Parent'' (x, [t, c]) = t" for x t c
      by (simp_all add: at_col_def col_pos_def columns_def cell_at_def)
    ultimately show ?thesis
      by (intro exI [of _ ?out] exI [of _ "\<lambda>t c r. [t, c]"]) simp
  next
    case False
    let ?out = "\<lparr>cols = [(v, snd (cols df ! i)),
                  (''Edu_code'', concat_dtype (snd (cols df ! j)) (snd (cols df ! k))),
                  (''Parent'', Plain)],
          rows = map (\<lambda>r. (fst r, [at_col df v r, ?M r, Str ''Mother''])) (rows df) @
                 map (\<lambda>r. (fst r, [at_col df v r, ?F r, Str ''Father''])) (rows df)\<rparr>"
    have "make_long df v default_parent_cols = Inr ?out"
      using make_long_plain [OF pos] assms(5) False by simp
    moreover have "at_col ?out ''Edu_code'' (x, [a, c, t]) = c" 
      and "at_col ?out ''Parent'' (x, [a, c, t]) = t" for x a t c
      using assms(5) False by (auto simp add: at_col_def col_pos_def columns_def cell_at_def)
    ultimately show ?thesis
      by (intro exI [of _ ?out] exI [of _ "\<lambda>t c r. [at_col df v r, c, t]"]) simp
  qed
  then obtain out mk where out: "make_long df v default_parent_cols = Inr out"
    and rws: "rows out = map (\<lambda>r. (fst r, mk (Str ''Mother'') (?M r) r)) (rows df) @
                     map (\<lambda>r. (fst r, mk (Str ''Father'') (?F r) r)) (rows df)"
    and edu: "\<And>t c r. at_col out ''Edu_code'' (fst r, mk t c r) = c"
    and par: "\<And>t c r. at_col out ''Parent'' (fst r, mk t c r) = t"
    by blast
  have len: "length (rows out) = 2 * length (rows df)"
    by (simp add: rws)
  have "filter (\<lambda>r. at_col out ''Parent'' r = Str ''Mother'') (rows out) =
          map (\<lambda>r. (fst r, mk (Str ''Mother'') (?M r) r)) (rows df)"
    unfolding rws by (simp add: filter_map comp_def par)
  then have m: "map (\<lambda>r. (fst r, at_col out ''Edu_code'' r))
               (filter (\<lambda>r. at_col out ''Parent'' r = Str ''Mother'') (rows out)) =
             map (\<lambda>r. (fst r, ?M r)) (rows df)"
    by (simp add: comp_def edu)
  have "filter (\<lambda>r. at_col out ''Parent'' r = Str ''Father'') (rows out) =
          map (\<lambda>r. (fst r, mk (Str ''Father'') (?F r) r)) (rows df)"
    unfolding rws by (simp add: filter_map comp_def par)
  then have f: "map (\<lambda>r. (fst r, at_col out ''Edu_code'' r))
               (filter (\<lambda>r. at_col out ''Parent'' r = Str ''Father'') (rows out)) =
             map (\<lambda>r. (fst r, ?F r)) (rows df)"
    by (simp add: comp_def edu)
  from out len m f show ?thesis by blast
qed


theorem make_long_doubles_rows_witness:
  "\<exists>out. make_long dummy_df ''Age'' default_parent_cols = Inr out \<and>
     length (rows out) = 2 * length (rows dummy_df) \<and>
     map (\<lambda>r. (fst r, at_col out ''Edu_code'' r))
         (filter (\<lambda>r. at_col out ''Parent'' r = Str ''Mother'') (rows out)) =
       map (\<lambda>r. (fst r, at_col dummy_df ''Mother_edu_code'' r)) (rows dummy_df) \<and>
     map (\<lambda>r. (fst r, at_col out ''Edu_code'' r))
         (filter (\<lambda>r. at_col out ''Parent'' r = Str ''Father'') (rows out)) =
       map (\<lambda>r. (fst r, at_col dummy_df ''Father_edu_code'' r)) (rows dummy_df)"
  using make_long_doubles_rows [of dummy_df "''Age''"]
  by (simp add: wf_dummy_df columns_dummy_df)

text \<open>
  Claim C7, as stated, fails: the long table holds the value column, \<^verbatim>\<open>Edu_code\<close> and
  \<^verbatim>\<open>Parent\<close> only. On the test fixture reshaped on \<^verbatim>\<open>Age\<close> the \<^verbatim>\<open>Target\<close> column of the wide
  table is not a column of the long table.
\<close>

theorem make_long_keeps_all_columns_counterexample:
  "make_long dummy_df ''Age'' default_parent_cols = Inr dummy_long \<and>
   ''Target'' \<in> set (columns dummy_df) \<and> ''Target'' \<notin> set (columns dummy_long)"
  by (simp add: make_long_dummy columns_dummy_df) (simp add: dummy_long_def columns_def)

text \<open>
  Claim C7, amended. Each wide row contributes exactly one Mother record and one Father
  record (the Mother records first, each part in the wide table's order). A long record
  carries the wide row's index label, its value-column entry unchanged, the parent's code
  as \<^verbatim>\<open>Edu_code\<close> and the \<^verbatim>\<open>Parent\<close> tag; the long table has these three columns and no
  other column of the wide table.
\<close>

theorem make_long_keeps_value_column:
  assumes "wf_frame df"
    and "''Mother_edu_code'' \<in> set (columns df)" and "''Father_edu_code'' \<in> set (columns df)"
    and "v \<in> set (columns df)"
    and "v \<notin> {''Mother_edu_code'', ''Father_edu_code'', ''Parent''}"
  shows "\<exists>out. make_long df v default_parent_cols = Inr out \<and>
           columns out = [v, ''Edu_code'', ''Parent''] \<and>
           rows out =
             map (\<lambda>r. (fst r, [at_col df v r, at_col df ''Mother_edu_code'' r, Str ''Mother'']))
               (rows df) @
             map (\<lambda>r. (fst r, [at_col df v r, at_col df ''Father_edu_code'' r, Str ''Father'']))
               (rows df)"
proof -
  obtain i j k where pos: "col_pos df v = Some i"
      "col_pos df ''Mother_edu_code'' = Some j" "col_pos df ''Father_edu_code'' = Some k"
    using assms(2,3,4) col_pos_mem by blast
  show ?thesis
    using make_long_plain [OF pos] assms(5) by (simp add: columns_def)
qed

theorem make_long_keeps_value_column_witness:
  "\<exists>out. make_long dummy_df ''Age'' default_parent_cols = Inr out \<and>
     columns out = [''Age'', ''Edu_code'', ''Parent''] \<and>
     rows out =
       map (\<lambda>r. (fst r, [at_col dummy_df ''Age'' r, at_col dummy_df ''Mother_edu_code'' r,
                          Str ''Mother''])) (rows dummy_df) @
       map (\<lambda>r. (fst r, [at_col dummy_df ''Age'' r, at_col dummy_df ''Father_edu_code'' r,
                          Str ''Father''])) (rows dummy_df)"
  using make_long_keeps_value_column [of dummy_df "''Age''"]
  by (simp add: wf_dummy_df columns_dummy_df)


section \<open>Properties of the categorizer\<close>

lemma index_of_append_new:
  "x \<notin> set xs \<Longrightarrow> index_of x (xs @ [x]) = Some (length xs)"
  by (induction xs) auto

lemma index_of_update:
  "index_of x xs = Some i \<Longrightarrow> index_of x (xs[i := x]) = Some i"
  by (induction xs arbitrary: i) (auto split: if_splits)

lemma col_pos_None_iff: "col_pos df c = None \<longleftrightarrow> c \<notin> set (columns df)"
  by (simp add: col_pos_def index_of_None_iff)

lemma wf_frame_row: "wf_frame df \<Longrightarrow> r \<in> set (rows df) \<Longrightarrow> length (snd r) = length (cols df)"
  by (simp add: wf_frame_def list_all_iff)

lemma setitem_new:
  assumes "col_pos df c = None"
  shows "setitem df c d vals =
           \<lparr>cols = cols df @ [(c, d)],
            rows = map (\<lambda>(r, v). (fst r, snd r @ [v])) (zip (rows df) vals)\<rparr>"
    and "col_pos (setitem df c d vals) c = Some (length (cols df))"
proof -
  show 1: "setitem df c d vals =
           \<lparr>cols = cols df @ [(c, d)],
            rows = map (\<lambda>(r, v). (fst r, snd r @ [v])) (zip (rows df) vals)\<rparr>"
    using assms by (simp add: setitem_def)
  have "c \<notin> set (map fst (cols df))"
    using assms by (simp add: col_pos_None_iff columns_def)
  then show "col_pos (setitem df c d vals) c = Some (length (cols df))"
    unfolding 1 using index_of_append_new [of c "map fst (cols df)"]
    by (simp add: col_pos_def columns_def)
qed

lemma setitem_old:
  assumes "col_pos df c = Some i"
  shows "setitem df c d vals =
           \<lparr>cols = (cols df)[i := (c, d)],
            rows = map (\<lambda>(r, v). (fst r, (snd r)[i := v])) (zip (rows df) vals)\<rparr>"
    and "col_pos (setitem df c d vals) c = Some i"
    and "columns (setitem df c d vals) = columns df"
proof -
  show 1: "setitem df c d vals =
           \<lparr>cols = (cols df)[i := (c, d)],
            rows = map (\<lambda>(r, v). (fst r, (snd r)[i := v])) (zip (rows df) vals)\<rparr>"
    using assms by (simp add: setitem_def)
  have i: "index_of c (map fst (cols df)) = Some i"
    using assms by (simp add: col_pos_def columns_def)
  from index_of_Some_lt [OF i] have eq: "(map fst (cols df))[i := c] = map fst (cols df)"
    by (metis list_update_id)
  show "col_pos (setitem df c d vals) c = Some i"
    unfolding 1 using index_of_update [OF i] by (simp add: col_pos_def columns_def map_update)
  show "columns (setitem df c d vals) = columns df"
    unfolding 1 using eq by (simp add: columns_def map_update)
qed

lemma setitem_pos: "\<exists>i. col_pos (setitem df c d vals) c = Some i \<and> i \<le> length (cols df)"
proof (cases "col_pos df c")
  case None
  then show ?thesis by (simp add: setitem_new(2))
next
  case (Some i)
  then show ?thesis using col_pos_Some(1) [OF Some] by (simp add: setitem_old(2))
qed

lemma setitem_dtype: "dtype_of (setitem df c d vals) c = Some d"
proof (cases "col_pos df c")
  case None
  show ?thesis
    unfolding dtype_of_def setitem_new(2) [OF None]
    by (simp add: setitem_new(1) [OF None])
next
  case (Some i)
  show ?thesis
    unfolding dtype_of_def setitem_old(2) [OF Some]
    using col_pos_Some(1) [OF Some] by (simp add: setitem_old(1) [OF Some])
qed

lemma setitem_length: "length vals = length (rows df) \<Longrightarrow> length (rows (setitem df c d vals)) = length (rows df)"
  by (cases "col_pos df c") (simp_all add: setitem_new(1) setitem_old(1))

lemma setitem_wf:
  assumes "wf_frame df"
  shows "wf_frame (setitem df c d vals)"
proof (cases "col_pos df c")
  case None
  then have "c \<notin> set (columns df)" by (simp add: col_pos_None_iff)
  with assms show ?thesis
    unfolding setitem_new(1) [OF None]
    by (auto simp: wf_frame_def columns_def list_all_iff dest!: set_zip_leftD)
next
  case (Some i)
  have "wf_frame \<lparr>cols = (cols df)[i := (c, d)],
            rows = map (\<lambda>(r, v). (fst r, (snd r)[i := v])) (zip (rows df) vals)\<rparr>"
    using assms setitem_old(3) [OF Some, of d vals, unfolded setitem_old(1) [OF Some]]
    by (auto simp: wf_frame_def list_all_iff dest!: set_zip_leftD)
  then show ?thesis by (simp add: setitem_old(1) [OF Some])
qed

lemma setitem_cell:
  assumes "wf_frame df" and "length vals = length (rows df)" and "n < length vals"
  shows "at_col (setitem df c d vals) c (rows (setitem df c d vals) ! n) = vals ! n"
proof (cases "col_pos df c")
  case None
  have "length (snd (rows df ! n)) = length (cols df)"
    using assms by (simp add: wf_frame_row)
  then show ?thesis
    unfolding at_col_def setitem_new(2) [OF None]
    using assms(2,3) by (simp add: setitem_new(1) [OF None] cell_at_def nth_append)
next
  case (Some i)
  have "length (snd (rows df ! n)) = length (cols df)"
    using assms by (simp add: wf_frame_row)
  then show ?thesis
    unfolding at_col_def setitem_old(2) [OF Some]
    using assms(2,3) col_pos_Some(1) [OF Some] by (simp add: setitem_old(1) [OF Some] cell_at_def)
qed

lemma setitem_getitem:
  assumes "wf_frame df" and "length vals = length (rows df)"
  shows "getitem (setitem df c d vals) c = Inr vals"
proof -
  obtain i where i: "col_pos (setitem df c d vals) c = Some i" using setitem_pos by blast
  have len: "length (rows (setitem df c d vals)) = length vals"
    using assms(2) by (simp add: setitem_length)
  have "map (cell_at i) (rows (setitem df c d vals)) = vals"
  proof (rule nth_equalityI)
    show "length (map (cell_at i) (rows (setitem df c d vals))) = length vals"
      using len by simp
  next
    fix n assume "n < length (map (cell_at i) (rows (setitem df c d vals)))"
    then have n: "n < length vals" using len by simp
    from setitem_cell [OF assms n, of c d] 
    show "map (cell_at i) (rows (setitem df c d vals)) ! n = vals ! n"
      using n len by (simp add: at_col_def i)
  qed
  then show ?thesis by (simp add: getitem_def i)
qed

lemma map_and_order_edu_result:
  assumes "wf_frame df" and "edu_col \<in> set (columns df)"
    and "distinct order" and "NaN \<notin> set order"
  shows "map_and_order_edu df edu_col label_col labels order =
     Inr (setitem (setitem df label_col Plain
                     (series_map (map (at_col df edu_col) (rows df)) labels))
            label_col (Categorical order True)
            (map (\<lambda>v. if v \<in> set order then v else NaN)
               (series_map (map (at_col df edu_col) (rows df)) labels)))"
  unfolding map_and_order_edu_def
  using assms(3,4)
  by (simp add: getitem_present [OF assms(2)] setitem_getitem [OF assms(1)] series_map_def
        categorical_def)


lemma setitem_cells_in:
  assumes "wf_frame df" and "length vals = length (rows df)"
    and "r \<in> set (rows (setitem df c d vals))"
  shows "at_col (setitem df c d vals) c r \<in> set vals"
proof -
  have len: "length (rows (setitem df c d vals)) = length vals"
    using assms(2) by (simp add: setitem_length)
  from assms(3) obtain n where n: "n < length (rows (setitem df c d vals))"
      and r: "r = rows (setitem df c d vals) ! n"
    unfolding in_set_conv_nth by blast
  from n len have n': "n < length vals" by simp
  have "at_col (setitem df c d vals) c r = vals ! n"
    unfolding r by (rule setitem_cell [OF assms(1,2) n'])
  with n' show ?thesis by simp
qed

text \<open>
  Claim C4. For a well-formed table with the code column, any label column, any label
  map and any order list without repetition and without a missing value,
  \<^verbatim>\<open>map_and_order_edu\<close> succeeds and the label column of the result is an ordered
  categorical whose categories are exactly \<open>order\<close>, whatever codes occur in the table;
  every cell of the column is one of these categories or missing, so a label of \<open>order\<close>
  that does not occur is still a category.
\<close>

theorem map_and_order_edu_categories:
  assumes "wf_frame df" and "edu_col \<in> set (columns df)"
    and "distinct order" and "NaN \<notin> set order"
  shows "\<exists>out. map_and_order_edu df edu_col label_col labels order = Inr out \<and>
           dtype_of out label_col = Some (Categorical order True) \<and>
           (\<forall>r\<in>set (rows out). at_col out label_col r = NaN \<or> at_col out label_col r \<in> set order)"
proof -
  define lab where "lab = series_map (map (at_col df edu_col) (rows df)) labels"
  define vals where "vals = map (\<lambda>v. if v \<in> set order then v else NaN) lab"
  define df1 where "df1 = setitem df label_col Plain lab"
  define out where "out = setitem df1 label_col (Categorical order True) vals"
  have res: "map_and_order_edu df edu_col label_col labels order = Inr out"
    unfolding out_def df1_def vals_def lab_def by (rule map_and_order_edu_result [OF assms])
  have wf1: "wf_frame df1" unfolding df1_def by (rule setitem_wf [OF assms(1)])
  have "length lab = length (rows df)" by (simp add: lab_def series_map_def)
  then have "length (rows df1) = length (rows df)" unfolding df1_def by (rule setitem_length)
  with \<open>length lab = length (rows df)\<close> have len1: "length vals = length (rows df1)"
    by (simp add: vals_def)
  have vals: "v = NaN \<or> v \<in> set order" if "v \<in> set vals" for v
    using that unfolding vals_def by auto
  have cells: "at_col out label_col r = NaN \<or> at_col out label_col r \<in> set order"
    if "r \<in> set (rows out)" for r
  proof (rule vals)
    from that have "r \<in> set (rows (setitem df1 label_col (Categorical order True) vals))"
      by (simp only: out_def)
    from setitem_cells_in [OF wf1 len1 this]
    show "at_col out label_col r \<in> set vals" by (simp only: out_def)
  qed
  have dt: "dtype_of out label_col = Some (Categorical order True)"
    unfolding out_def by (rule setitem_dtype)
  show ?thesis
    by (intro exI [of _ out] conjI ballI res dt cells)
qed


lemma wf_codes_df: "wf_frame codes_df"
  by (simp add: wf_frame_def codes_df_def columns_def)

lemma EDU_ORDER_ok: "distinct EDU_ORDER \<and> NaN \<notin> set EDU_ORDER"
  by (simp add: EDU_ORDER_def)

theorem map_and_order_edu_categories_witness:
  "\<exists>out. map_and_order_edu codes_df ''Edu_code'' ''Education Level'' EDU_LABELS EDU_ORDER = Inr out \<and>
     dtype_of out ''Education Level'' = Some (Categorical EDU_ORDER True) \<and>
     (\<forall>r\<in>set (rows out). at_col out ''Education Level'' r = NaN \<or>
                          at_col out ''Education Level'' r \<in> set EDU_ORDER)"
proof -
  have c: "''Edu_code'' \<in> set (columns codes_df)" by (simp add: codes_df_def columns_def)
  from map_and_order_edu_categories [OF wf_codes_df c conjunct1 [OF EDU_ORDER_ok]
      conjunct2 [OF EDU_ORDER_ok]]
  show ?thesis .
qed

lemma codes_df_categorized:
  "map_and_order_edu codes_df ''Edu_code'' ''Education Level'' EDU_LABELS EDU_ORDER =
     Inr \<lparr>cols = [(''Edu_code'', Plain), (''Education Level'', Categorical EDU_ORDER True)],
          rows = [(Num 0, [Num 2, Str ''Some Level of Elementary School'']),
                  (Num 1, [Num 3, Str ''Completed Elementary School'']),
                  (Num 2, [Num 5, Str ''Completed High School''])]\<rparr>"
  by code_simp

section \<open>Properties of \<^verbatim>\<open>float64\<close> rounding\<close>

text \<open>
  Rounding moves a number by at most half a unit in the last place, that is by a relative
  error of at most \<open>2\<^sup>-\<^sup>5\<^sup>3\<close>, and it leaves integers and half-integers below \<open>2\<^sup>5\<^sup>3\<close> as they
  are.
\<close>

lemma round_even_error: "\<bar>of_int (round_even y) - y\<bar> \<le> 1 / 2"
proof -
  have "of_int \<lfloor>y\<rfloor> \<le> y" "y < of_int \<lfloor>y\<rfloor> + 1" by linarith+
  then show ?thesis
    by (auto simp: round_even_def Let_def abs_le_iff)
qed

lemma round_even_of_int [simp]: "round_even (of_int n) = n"
  by (simp add: round_even_def)

lemma binade_le:
  assumes "0 < a"
  shows "2 powi (binade a) \<le> a"
proof -
  obtain p q where pq: "quotient_of a = (p, q)" by (cases "quotient_of a")
  then have q: "0 < q" and a: "a = of_int p / of_int q"
    by (simp_all add: quotient_of_denom_pos quotient_of_div)
  with assms have p: "0 < p" by (simp add: zero_less_divide_iff)
  define e where "e = bitlen p - bitlen q"
  have bp: "1 \<le> bitlen p" and bq: "1 \<le> bitlen q"
    using p q bitlen_eq_zero_iff [of p] bitlen_eq_zero_iff [of q] bitlen_nonneg [of p]
      bitlen_nonneg [of q] by linarith+
  have "(2::rat) powi (bitlen p - 1) = of_int (2 ^ nat (bitlen p - 1))"
    using bp by (simp add: power_int_def)
  also have "\<dots> \<le> of_int p"
    using bitlen_bounds [OF p] by (simp only: of_int_le_iff)
  finally have lo: "(2::rat) powi (bitlen p - 1) \<le> of_int p" .
  have "of_int q < (of_int (2 ^ nat (bitlen q)) :: rat)"
    using bitlen_bounds [OF q] by (simp only: of_int_less_iff)
  also have "\<dots> = 2 powi (bitlen q)"
    using bq by (simp add: power_int_def)
  finally have hi: "of_int q \<le> (2::rat) powi (bitlen q)" by simp
  have "e - 1 = (bitlen p - 1) - bitlen q" by (simp add: e_def)
  then have "(2::rat) powi (e - 1) = 2 powi (bitlen p - 1) / 2 powi (bitlen q)"
    by (simp only: power_int_diff [of "2::rat", simplified])
  also have "\<dots> \<le> of_int p / of_int q"
    using lo hi q p by (intro frac_le) simp_all
  finally have "(2::rat) powi (e - 1) \<le> a" by (simp add: a)
  then show ?thesis
    by (simp add: binade_def pq e_def Let_def)
qed

lemma fl_error: "\<bar>fl x - x\<bar> \<le> \<bar>x\<bar> / 2 ^ 53"
proof (cases "x = 0")
  case True
  then show ?thesis by (simp add: fl_def)
next
  case False
  define a where "a = \<bar>x\<bar>"
  define ulp where "ulp = (2::rat) powi (binade a - 52)"
  define m where "m = round_even (a / ulp)"
  have a: "0 < a" using False by (simp add: a_def)
  have ulp: "0 < ulp" by (simp add: ulp_def)
  have "ulp * 2 ^ 52 = 2 powi (binade a)"
    by (simp add: ulp_def power_int_diff)
  also have "\<dots> \<le> a" by (rule binade_le [OF a])
  finally have ua: "ulp * 2 ^ 52 \<le> a" .
  have "\<bar>of_int m - a / ulp\<bar> \<le> 1 / 2" unfolding m_def by (rule round_even_error)
  then have "\<bar>of_int m - a / ulp\<bar> * ulp \<le> 1 / 2 * ulp"
    using ulp by (intro mult_right_mono) simp_all
  moreover have "\<bar>of_int m - a / ulp\<bar> * ulp = \<bar>of_int m * ulp - a\<bar>"
  proof -
    have "\<bar>of_int m - a / ulp\<bar> * ulp = \<bar>(of_int m - a / ulp) * ulp\<bar>"
      using ulp by (simp add: abs_mult)
    also have "(of_int m - a / ulp) * ulp = of_int m * ulp - a"
      using ulp by (simp add: left_diff_distrib)
    finally show ?thesis .
  qed
  ultimately have "\<bar>of_int m * ulp - a\<bar> \<le> ulp / 2" by simp
  also have "\<dots> \<le> a / 2 ^ 53" using ua by (simp add: field_simps)
  finally have err: "\<bar>of_int m * ulp - a\<bar> \<le> a / 2 ^ 53" .
  have "fl x = sgn x * (of_int m * ulp)"
    using False by (simp add: fl_def Let_def a_def ulp_def m_def mult.assoc)
  moreover have "x = sgn x * a" by (simp add: a_def sgn_mult_abs)
  ultimately have "fl x - x = sgn x * (of_int m * ulp - a)"
    by (metis right_diff_distrib)
  then have "\<bar>fl x - x\<bar> = \<bar>of_int m * ulp - a\<bar>"
    using False by (simp add: abs_mult abs_sgn_eq)
  with err show ?thesis by (simp add: a_def)
qed

lemma fl_pos:
  assumes "0 < x"
  shows "0 < fl x"
proof -
  have "x / 2 ^ 53 \<le> x / 2"
    using assms by (intro divide_left_mono) simp_all
  with fl_error [of x] assms show ?thesis by (simp only: abs_le_iff abs_of_pos) linarith
qed

lemma fl_minus: "fl (- x) = - fl x"
  by (simp add: fl_def Let_def)

lemma fl_dyadic_pos:
  assumes "0 < k" and "k < 2 ^ 53"
  shows "fl (of_int k / 2 ^ d) = of_int k / 2 ^ d"
proof -
  define a where "a = (of_int k / 2 ^ d :: rat)"
  define e where "e = binade a"
  have a: "0 < a" using assms(1) by (simp add: a_def)
  have "2 powi e \<le> a" unfolding e_def by (rule binade_le [OF a])
  also have "a < 2 ^ 53 / 2 ^ d"
  proof -
    have "(of_int k :: rat) < of_int (2 ^ 53)"
      using assms(2) by (simp only: of_int_less_iff)
    then have "(of_int k :: rat) < 2 ^ 53" by simp
    then show ?thesis unfolding a_def by (intro divide_strict_right_mono) simp_all
  qed
  also have "\<dots> = 2 powi (53 - int d)"
    by (simp add: power_int_diff)
  finally have lt: "(2::rat) powi e < 2 powi (53 - int d)" .
  have "e < 53 - int d"
  proof (rule ccontr)
    assume "\<not> e < 53 - int d"
    then have "53 - int d \<le> e" by simp
    from power_int_increasing [OF this, of "2::rat"] lt show False by simp
  qed
  then have n: "52 - e = int d + int (nat (52 - e - int d))" by simp
  define n where "n = nat (52 - e - int d)"
  note n = n [folded n_def]
  have ulp: "(2::rat) powi (e - 52) = 1 / (2 ^ d * 2 ^ n)"
  proof -
    have "e - 52 = - int (d + n)" using n by simp
    then have "(2::rat) powi (e - 52) = inverse (2 ^ (d + n))"
      by (simp only: power_int_minus power_int_of_nat)
    then show ?thesis by (simp add: power_add divide_inverse)
  qed
  have "a / 2 powi (e - 52) = of_int (k * 2 ^ n)"
    by (simp add: ulp a_def)
  then have "round_even (a / 2 powi (e - 52)) = k * 2 ^ n"
    by (simp only: round_even_of_int)
  then have "of_int (round_even (a / 2 powi (e - 52))) * 2 powi (e - 52) = a"
    by (simp add: ulp a_def)
  then show ?thesis
    using a by (simp add: fl_def Let_def e_def [symmetric] a_def [symmetric] mult.assoc)
qed

lemma fl_of_int:
  assumes "\<bar>k\<bar> < 2 ^ 53"
  shows "fl (of_int k) = of_int k"
proof (cases k "0::int" rule: linorder_cases)
  case equal
  then show ?thesis by (simp add: fl_def)
next
  case greater
  with assms fl_dyadic_pos [of k 0] show ?thesis by simp
next
  case less
  with assms fl_dyadic_pos [of "- k" 0] have "fl (- of_int k) = - of_int k" by simp
  then show ?thesis by (simp add: fl_minus)
qed


section \<open>Properties of the aggregator\<close>

lemma set_uniq [simp]: "set (uniq xs) = set xs"
  by (simp add: uniq_def)

lemma distinct_uniq [simp]: "distinct (uniq xs)"
  by (simp add: uniq_def)

lemma set_observed_keys:
  "set (observed_keys df ps) = row_key ps ` {r \<in> set (rows df). NaN \<notin> set (row_key ps r)}"
  by (simp add: observed_keys_def)

lemma distinct_observed_keys: "distinct (observed_keys df ps)"
  by (simp add: observed_keys_def)

lemma sorted_observed_keys:
  "sorted (map (key_rank (map (\<lambda>i. snd (cols df ! i)) ps)) (observed_keys df ps))"
  by (simp add: observed_keys_def)

lemma observed_key_props:
  assumes "k \<in> set (observed_keys df ps)"
  shows "length k = length ps" and "NaN \<notin> set k"
  using assms by (auto simp: set_observed_keys row_key_def)

lemma groupby_present:
  assumes "those (map (col_pos df) keys) = Some ps"
  shows "groupby df keys =
           Inr \<lparr>source = df, key_cols = map (\<lambda>i. cols df ! i) ps, key_pos = ps,
                group_list = observed_keys df ps\<rparr>"
  using assms by (simp add: groupby_def)

lemma enumerate_map_pair:
  "map (\<lambda>(i, (k, vs)). F i k vs) (enumerate n (map (\<lambda>k. (k, h k)) ks)) =
   map (\<lambda>(i, k). F i k (h k)) (enumerate n ks)"
  by (induction ks arbitrary: n) auto

lemma map_enumerate_cong:
  assumes "\<And>i k. k \<in> set ks \<Longrightarrow> f i k = g i k"
  shows "map (\<lambda>(i, k). f i k) (enumerate n ks) = map (\<lambda>(i, k). g i k) (enumerate n ks)"
  using assms by (induction ks arbitrary: n) auto

lemma filter_enumerate_map:
  "map (\<lambda>(i, k). f k) (filter (\<lambda>(i, k). P k) (enumerate n ks)) = map f (filter P ks)"
  by (induction ks arbitrary: n) auto

lemma length3E:
  assumes "length k = 3"
  obtains a b c where "k = [a, b, c]"
  using assms by (auto simp: numeral_3_eq_3 length_Suc_conv)

lemma nums_map_Num [simp]: "nums (map Num xs) = xs"
  by (induction xs) (simp_all add: nums_def)

lemma filter_map_enumerate:
  "filter P (map (\<lambda>(i, k). g i k) (enumerate n ks)) =
     map (\<lambda>(i, k). g i k) (filter (\<lambda>(i, k). P (g i k)) (enumerate n ks))"
  by (simp add: filter_map case_prod_unfold comp_def)

lemma filter_enumerate_cong:
  assumes "\<And>i k. k \<in> set ks \<Longrightarrow> P i k = Q i k"
  shows "filter (\<lambda>(i, k). P i k) (enumerate n ks) = filter (\<lambda>(i, k). Q i k) (enumerate n ks)"
  using assms by (induction ks arbitrary: n) auto

lemma map_filter_enumerate_cong:
  assumes "\<And>i k. k \<in> set ks \<Longrightarrow> P i k \<Longrightarrow> f i k = g i k"
  shows "map (\<lambda>(i, k). f i k) (filter (\<lambda>(i, k). P i k) (enumerate n ks)) =
         map (\<lambda>(i, k). g i k) (filter (\<lambda>(i, k). P i k) (enumerate n ks))"
  using assms by (induction ks arbitrary: n) auto

lemma add_percent_counts:
  fixes fr :: frame and ks :: "cell list list" and cnt :: "cell list \<Rightarrow> rat"
    and ex :: "nat \<Rightarrow> cell list \<Rightarrow> cell list"
  defines "tot \<equiv> \<lambda>k. sum_list (map cnt (filter (\<lambda>k'. take 2 k' = take 2 k) ks))"
  assumes pos: "col_pos fr ''Parent'' = Some 0" "col_pos fr ''Education Level'' = Some 1"
      "col_pos fr ''Count'' = Some 3"
    and rws: "rows fr = map (\<lambda>(i, k). (Num (of_nat i), k @ Num (cnt k) # ex i k)) (enumerate 0 ks)"
    and len: "\<And>k. k \<in> set ks \<Longrightarrow> length k = 3"
    and nonan: "\<And>k. k \<in> set ks \<Longrightarrow> NaN \<notin> set k"
  shows "add_percent fr =
           Inr (setitem fr ''Percent'' Plain
                  (map (\<lambda>(i, k). cell_mul (cell_div (Num (cnt k)) (Num (tot k))) (Num 100))
                     (enumerate 0 ks)))"
proof -
  have c3: "cell_at 3 (x, k @ c # e) = c" if "k \<in> set ks" for x k c e
    using len [OF that] by (simp add: cell_at_def nth_append)
  have rk: "row_key [0, 1] (x, k @ c # e) = take 2 k" if "k \<in> set ks" for x k c e
    using len [OF that] by (elim length3E) (simp add: row_key_def cell_at_def)
  note rk' = rk [unfolded One_nat_def]
  have cntcol: "getitem fr ''Count'' = Inr (map (\<lambda>(i, k). Num (cnt k)) (enumerate 0 ks))"
  proof -
    have "map (cell_at 3) (rows fr) =
            map (\<lambda>(i, k). cell_at 3 (Num (of_nat i), k @ Num (cnt k) # ex i k)) (enumerate 0 ks)"
      by (auto simp: rws)
    also have "\<dots> = map (\<lambda>(i, k). Num (cnt k)) (enumerate 0 ks)"
      by (rule map_enumerate_cong) (rule c3)
    finally show ?thesis by (simp add: getitem_def pos(3))
  qed
  define g where "g = \<lparr>source = fr,
      key_cols = map (\<lambda>i. cols fr ! i) [0, 1],
      key_pos = [0, 1], group_list = observed_keys fr [0, 1]\<rparr>"
  have G: "groupby fr [''Parent'', ''Education Level''] = Inr g"
    by (simp add: groupby_def pos g_def)
  have mem: "map (cell_at 3) (members g (take 2 k)) =
               map (\<lambda>k'. Num (cnt k')) (filter (\<lambda>k'. take 2 k' = take 2 k) ks)" for k
  proof -
    have "members g (take 2 k) =
            filter (\<lambda>r. row_key [0, 1] r = take 2 k)
              (map (\<lambda>(i, k). (Num (of_nat i), k @ Num (cnt k) # ex i k)) (enumerate 0 ks))"
      by (simp add: members_def g_def rws)
    also have "\<dots> = map (\<lambda>(i, k). (Num (of_nat i), k @ Num (cnt k) # ex i k))
              (filter (\<lambda>(i, k'). row_key [0, 1] (Num (of_nat i), k' @ Num (cnt k') # ex i k') = take 2 k)
                 (enumerate 0 ks))"
      by (rule filter_map_enumerate)
    also have "(filter (\<lambda>(i, k'). row_key [0, 1] (Num (of_nat i), k' @ Num (cnt k') # ex i k') = take 2 k)
                 (enumerate 0 ks)) = filter (\<lambda>(i, k'). take 2 k' = take 2 k) (enumerate 0 ks)"
      by (rule filter_enumerate_cong) (simp add: rk')
    finally have "map (cell_at 3) (members g (take 2 k)) =
       map (\<lambda>(i, k'). cell_at 3 (Num (of_nat i), k' @ Num (cnt k') # ex i k'))
         (filter (\<lambda>(i, k'). take 2 k' = take 2 k) (enumerate 0 ks))"
      by (simp add: case_prod_unfold comp_def)
    also have "\<dots> = map (\<lambda>(i, k'). Num (cnt k'))
         (filter (\<lambda>(i, k'). take 2 k' = take 2 k) (enumerate 0 ks))"
      by (rule map_filter_enumerate_cong) (rule c3)
    also have "\<dots> = map (\<lambda>k'. Num (cnt k')) (filter (\<lambda>k'. take 2 k' = take 2 k) ks)"
      by (rule filter_enumerate_map)
    finally show ?thesis .
  qed
  have tr: "transform_sum g ''Count'' = Inr (map (\<lambda>(i, k). Num (tot k)) (enumerate 0 ks))"
  proof -
    have one: "(let k2 = row_key [0, 1] (Num (of_nat i), k @ Num (cnt k) # ex i k) in
            if NaN \<in> set k2 then NaN
            else Num (sum_list (nums (map (cell_at 3) (members g k2))))) = Num (tot k)"
      if "k \<in> set ks" for i k
    proof -
      have "NaN \<notin> set (take 2 k)" using nonan [OF that] by (auto dest: in_set_takeD)
      moreover have "nums (map (cell_at 3) (members g (take 2 k))) =
          map cnt (filter (\<lambda>k'. take 2 k' = take 2 k) ks)"
        unfolding mem using nums_map_Num [of "map cnt (filter (\<lambda>k'. take 2 k' = take 2 k) ks)"]
        by (simp add: comp_def)
      ultimately show ?thesis
        by (simp add: rk' [OF that] tot_def)
    qed
    have "map (\<lambda>r. let k2 = row_key [0, 1] r in
            if NaN \<in> set k2 then NaN
            else Num (sum_list (nums (map (cell_at 3) (members g k2))))) (rows fr) =
          map (\<lambda>(i, k). let k2 = row_key [0, 1] (Num (of_nat i), k @ Num (cnt k) # ex i k) in
            if NaN \<in> set k2 then NaN
            else Num (sum_list (nums (map (cell_at 3) (members g k2))))) (enumerate 0 ks)"
      by (auto simp: rws)
    also have "\<dots> = map (\<lambda>(i, k). Num (tot k)) (enumerate 0 ks)"
      by (rule map_enumerate_cong) (rule one)
    finally show ?thesis
      unfolding transform_sum_def
      by (simp add: g_def pos(3))
  qed
  have "series_mul (series_div (map (\<lambda>(i, k). Num (cnt k)) (enumerate 0 ks))
                      (map (\<lambda>(i, k). Num (tot k)) (enumerate 0 ks))) (Num 100) =
        map (\<lambda>(i, k). cell_mul (cell_div (Num (cnt k)) (Num (tot k))) (Num 100)) (enumerate 0 ks)"
    by (simp add: series_mul_def series_div_def zip_map_map zip_same_conv_map
        case_prod_unfold comp_def)
  then show ?thesis
    unfolding add_percent_def by (simp add: cntcol G tr)
qed

lemma compute_percent_closed:
  fixes df t iP iE iT
  defines "ps \<equiv> [iP, iE, iT]"
  defines "ks \<equiv> observed_keys df ps"
  defines "cnt \<equiv> \<lambda>k. (of_nat (length (filter (\<lambda>r. row_key ps r = k) (rows df))) :: rat)"
  defines "tot \<equiv> \<lambda>k. sum_list (map cnt (filter (\<lambda>k'. take 2 k' = take 2 k) ks))"
  assumes P: "col_pos df ''Parent'' = Some iP"
    and E: "col_pos df ''Education Level'' = Some iE"
    and T: "col_pos df t = Some iT"
    and d: "distinct [''Parent'', ''Education Level'', t, ''Count'', ''Percent'']"
  shows "compute_percent df t =
     Inr \<lparr>cols = [cols df ! iP, cols df ! iE, cols df ! iT, (''Count'', Plain), (''Percent'', Plain)],
          rows = map (\<lambda>(i, k). (Num (of_nat i),
                          k @ [Num (cnt k), cell_mul (cell_div (Num (cnt k)) (Num (tot k))) (Num 100)]))
                   (enumerate 0 ks)\<rparr>"
proof -
  obtain dP dE dT where cP: "cols df ! iP = (''Parent'', dP)"
      and cE: "cols df ! iE = (''Education Level'', dE)" and cT: "cols df ! iT = (t, dT)"
    using col_pos_Some(2) [OF P] col_pos_Some(2) [OF E] col_pos_Some(2) [OF T] by blast
  have th: "those (map (col_pos df) [''Parent'', ''Education Level'', t]) = Some ps"
    by (simp add: P E T ps_def)
  define g where "g = \<lparr>source = df,
      key_cols = [(''Parent'', dP), (''Education Level'', dE), (t, dT)],
      key_pos = ps, group_list = ks\<rparr>"
  have G: "groupby df [''Parent'', ''Education Level'', t] = Inr g"
    unfolding groupby_present [OF th] by (simp add: g_def ps_def ks_def cP cE cT)
  define counts where "counts =
     \<lparr>cols = [(''Parent'', dP), (''Education Level'', dE), (t, dT), (''Count'', Plain)],
      rows = map (\<lambda>(i, k). (Num (of_nat i), k @ [Num (cnt k)])) (enumerate 0 ks)\<rparr>"
  have sz: "size_groups g =
     \<lparr>index_names = [(''Parent'', dP), (''Education Level'', dE), (t, dT)], value_names = [],
      entries = map (\<lambda>k. (k, [Num (cnt k)])) ks\<rparr>"
    by (simp add: size_groups_def g_def members_def cnt_def)
  have C: "reset_index_name (size_groups g) ''Count'' = Inr counts"
    unfolding sz using d
    by (simp add: reset_index_name_def reset_index_def counts_def
          enumerate_map_pair [of "\<lambda>i k vs. (Num (of_nat i), k @ vs)" 0 "\<lambda>k. [Num (cnt k)]" ks])
  have len: "length k = 3" and nonan: "NaN \<notin> set k" if "k \<in> set ks" for k
    using observed_key_props [of k df ps] that by (simp_all add: ks_def ps_def)
  have pos: "col_pos counts ''Parent'' = Some 0" "col_pos counts ''Education Level'' = Some 1"
    "col_pos counts ''Count'' = Some 3" "col_pos counts ''Percent'' = None"
    using d by (auto simp: col_pos_def columns_def counts_def)
  have rws: "rows counts =
      map (\<lambda>(i, k). (Num (of_nat i), k @ Num (cnt k) # (\<lambda>i k. []) i k)) (enumerate 0 ks)"
    by (simp add: counts_def)
  have out: "setitem counts ''Percent'' Plain vals =
      \<lparr>cols = cols counts @ [(''Percent'', Plain)],
       rows = map (\<lambda>(r, v). (fst r, snd r @ [v])) (zip (rows counts) vals)\<rparr>" for vals
    by (simp add: setitem_def pos(4))
  show ?thesis
    unfolding compute_percent_def
    by (simp add: G C add_percent_counts [OF pos(1-3) rws len nonan] out tot_def)
       (simp add: counts_def cP cE cT enumerate_eq_zip zip_map_map map_zip_map zip_same_conv_map
          zip_assoc case_prod_unfold comp_def)
qed

lemma length_filter_disj:
  assumes "\<And>x. \<not> (P x \<and> Q x)"
  shows "length (filter (\<lambda>x. P x \<or> Q x) xs) = length (filter P xs) + length (filter Q xs)"
  using assms by (induction xs) auto

lemma sum_group_sizes:
  assumes "distinct ks"
  shows "sum_list (map (\<lambda>k. length (filter (\<lambda>r. f r = k) rs)) ks) =
           length (filter (\<lambda>r. f r \<in> set ks) rs)"
  using assms
proof (induction ks)
  case Nil
  show ?case by simp
next
  case (Cons k ks)
  have "length (filter (\<lambda>r. f r = k \<or> f r \<in> set ks) rs) =
          length (filter (\<lambda>r. f r = k) rs) + length (filter (\<lambda>r. f r \<in> set ks) rs)"
    by (rule length_filter_disj) (use Cons.prems in auto)
  with Cons show ?case by simp
qed

lemma sum_list_scaled:
  fixes f :: "'a \<Rightarrow> rat"
  shows "sum_list (map (\<lambda>x. f x / n * c) xs) = sum_list (map f xs) / n * c"
  by (induction xs) (simp_all add: add_divide_distrib distrib_right)

lemma sum_list_abs_diff:
  fixes f g :: "'a \<Rightarrow> rat"
  shows "\<bar>sum_list (map f xs) - sum_list (map g xs)\<bar> \<le> sum_list (map (\<lambda>x. \<bar>f x - g x\<bar>) xs)"
proof (induction xs)
  case Nil
  show ?case by simp
next
  case (Cons x xs)
  have "\<bar>sum_list (map f (x # xs)) - sum_list (map g (x # xs))\<bar> =
          \<bar>(f x - g x) + (sum_list (map f xs) - sum_list (map g xs))\<bar>"
    by simp
  also have "\<dots> \<le> \<bar>f x - g x\<bar> + \<bar>sum_list (map f xs) - sum_list (map g xs)\<bar>"
    by (rule abs_triangle_ineq)
  also have "\<dots> \<le> \<bar>f x - g x\<bar> + sum_list (map (\<lambda>x. \<bar>f x - g x\<bar>) xs)"
    using Cons.IH by simp
  finally show ?case by simp
qed

lemma singleton_list:
  assumes "distinct xs" and "set xs = {a}"
  shows "xs = [a]"
proof (cases xs)
  case Nil
  with assms show ?thesis by simp
next
  case (Cons x ys)
  with assms have "x = a" by auto
  moreover have "ys = []"
  proof (cases ys)
    case (Cons y zs)
    with \<open>xs = x # ys\<close> assms have "y = a" "y \<noteq> x" by auto
    with \<open>x = a\<close> show ?thesis by simp
  qed simp
  ultimately show ?thesis using Cons by simp
qed

text \<open>
  A percentage is computed with two roundings, \<^verbatim>\<open>(count / total) * 100\<close>; for the exact
  ratio \<open>x\<close> it is within \<open>\<bar>x\<bar> \<sqdot> 100 \<sqdot> (2u + u\<^sup>2)\<close> of \<open>100 \<sqdot> x\<close>, where \<open>u = 2\<^sup>-\<^sup>5\<^sup>3\<close>. The ratio 1 gives
  100 exactly.
\<close>

lemma fl_one: "fl 1 = 1"
  using fl_of_int [of 1] by simp

lemma fl_hundred: "fl 100 = 100"
  using fl_of_int [of 100] by simp

lemma percent_error:
  fixes x u :: rat
  defines "u \<equiv> 1 / 2 ^ 53"
  shows "\<bar>fl (fl x * 100) - x * 100\<bar> \<le> \<bar>x\<bar> * (100 * (2 * u + u * u))"
proof -
  have u0: "0 \<le> u" by (simp add: u_def)
  have a: "\<bar>fl x - x\<bar> \<le> \<bar>x\<bar> * u"
    using fl_error [of x] by (simp add: u_def)
  have b: "\<bar>fl (fl x * 100) - fl x * 100\<bar> \<le> \<bar>fl x\<bar> * 100 * u"
    using fl_error [of "fl x * 100"] by (simp add: u_def abs_mult)
  have "\<bar>fl x\<bar> = \<bar>(fl x - x) + x\<bar>" by simp
  also have "\<dots> \<le> \<bar>fl x - x\<bar> + \<bar>x\<bar>" by (rule abs_triangle_ineq)
  finally have c: "\<bar>fl x\<bar> \<le> \<bar>x\<bar> * u + \<bar>x\<bar>" using a by linarith
  have "\<bar>fl x\<bar> * (100 * u) \<le> (\<bar>x\<bar> * u + \<bar>x\<bar>) * (100 * u)"
    by (rule mult_right_mono [OF c]) (use u0 in simp)
  then have b': "\<bar>fl (fl x * 100) - fl x * 100\<bar> \<le> (\<bar>x\<bar> * u + \<bar>x\<bar>) * (100 * u)"
    using b by (simp add: mult.assoc)
  have "\<bar>fl (fl x * 100) - x * 100\<bar> =
          \<bar>(fl (fl x * 100) - fl x * 100) + (fl x - x) * 100\<bar>"
    by (simp add: algebra_simps)
  also have "\<dots> \<le> \<bar>fl (fl x * 100) - fl x * 100\<bar> + \<bar>(fl x - x) * 100\<bar>"
    by (rule abs_triangle_ineq)
  also have "\<bar>(fl x - x) * 100\<bar> = \<bar>fl x - x\<bar> * 100" by (simp only: abs_mult abs_numeral)
  finally have "\<bar>fl (fl x * 100) - x * 100\<bar> \<le> (\<bar>x\<bar> * u + \<bar>x\<bar>) * (100 * u) + \<bar>x\<bar> * u * 100"
    using b' a by linarith
  also have "\<dots> = \<bar>x\<bar> * (100 * (2 * u + u * u))" by (simp add: algebra_simps)
  finally show ?thesis .
qed

lemma percent_tolerance: "100 * (2 * (1 / 2 ^ 53) + (1 / 2 ^ 53) * (1 / 2 ^ 53)) \<le> (100 / 10 ^ 9 :: rat)"
  by simp


text \<open>
  Claim C1, amended. For a well-formed table with the columns \<^verbatim>\<open>Parent\<close>,
  \<^verbatim>\<open>Education Level\<close> and a target column (distinct from the labels of the result), and
  for a group \<open>(p, e)\<close> with at least one record that has a target value: \<^verbatim>\<open>compute_percent\<close>
  succeeds; the \<^verbatim>\<open>Percent\<close> values of the group's rows, which are \<^verbatim>\<open>float64\<close> numbers, sum
  to 100 within a relative error of \<open>10\<^sup>-\<^sup>9\<close>; their \<^verbatim>\<open>Count\<close> values sum to the number of
  records of the group that have a target value (a record with a missing target is
  counted in no row); and a group all of whose counted records have the target \<open>v\<close> has the
  single row \<open>(p, e, v, Count, 100)\<close>, with \<^verbatim>\<open>Percent\<close> exactly 100.
\<close>

theorem compute_percent_group_sums:
  assumes wf: "wf_frame df"
    and cs: "''Parent'' \<in> set (columns df)" "''Education Level'' \<in> set (columns df)"
      "t \<in> set (columns df)"
    and d: "distinct [''Parent'', ''Education Level'', t, ''Count'', ''Percent'']"
    and pe: "p \<noteq> NaN" "e \<noteq> NaN"
    and ne: "counted_records df t p e \<noteq> []"
  shows "\<exists>out. compute_percent df t = Inr out \<and>
           \<bar>sum_list (map (\<lambda>r. num_of (at_col out ''Percent'' r)) (group_records out p e)) - 100\<bar>
             \<le> 100 / 10 ^ 9 \<and>
           sum_list (map (\<lambda>r. num_of (at_col out ''Count'' r)) (group_records out p e)) =
             of_nat (length (counted_records df t p e)) \<and>
           (\<forall>v. (\<forall>r\<in>set (counted_records df t p e). at_col df t r = v) \<longrightarrow>
                map snd (group_records out p e) =
                  [[p, e, v, Num (of_nat (length (counted_records df t p e))), Num 100]])"
proof -
  from col_pos_mem [OF cs(1)] obtain iP where P: "col_pos df ''Parent'' = Some iP" ..
  from col_pos_mem [OF cs(2)] obtain iE where E: "col_pos df ''Education Level'' = Some iE" ..
  from col_pos_mem [OF cs(3)] obtain iT where T: "col_pos df t = Some iT" ..
  define ps where "ps = [iP, iE, iT]"
  define ks where "ks = observed_keys df ps"
  define cnt where "cnt = (\<lambda>k. (of_nat (length (filter (\<lambda>r. row_key ps r = k) (rows df))) :: rat))"
  define tot where "tot = (\<lambda>k. sum_list (map cnt (filter (\<lambda>k'. take 2 k' = take 2 k) ks)))"
  define mk where "mk = (\<lambda>i k. (Num (of_nat i) :: cell,
       k @ [Num (cnt k), cell_mul (cell_div (Num (cnt k)) (Num (tot k))) (Num 100)]))"
  define out where "out =
     \<lparr>cols = [cols df ! iP, cols df ! iE, cols df ! iT, (''Count'', Plain), (''Percent'', Plain)],
      rows = map (\<lambda>(i, k). mk i k) (enumerate 0 ks)\<rparr>"
  have res: "compute_percent df t = Inr out"
    unfolding out_def mk_def tot_def cnt_def ks_def ps_def
    by (rule compute_percent_closed [OF P E T d])
  define gk where "gk = filter (\<lambda>k. take 2 k = [p, e]) ks"
  define N where "N = (of_nat (length (counted_records df t p e)) :: rat)"
  have len: "length k = 3" and nonan: "NaN \<notin> set k" if "k \<in> set ks" for k
    using observed_key_props [of k df ps] that by (simp_all add: ks_def ps_def)
  \<comment> \<open>the columns of the result\<close>
  obtain dP dE dT where cP: "cols df ! iP = (''Parent'', dP)"
      and cE: "cols df ! iE = (''Education Level'', dE)" and cT: "cols df ! iT = (t, dT)"
    using col_pos_Some(2) [OF P] col_pos_Some(2) [OF E] col_pos_Some(2) [OF T] by blast
  have pos: "col_pos out ''Parent'' = Some 0" "col_pos out ''Education Level'' = Some 1"
    "col_pos out ''Count'' = Some 3" "col_pos out ''Percent'' = Some 4"
    using d by (auto simp: col_pos_def columns_def out_def cP cE cT)
  have cell: "at_col out ''Parent'' (mk i [a, b, c]) = a"
    "at_col out ''Education Level'' (mk i [a, b, c]) = b"
    "at_col out ''Count'' (mk i [a, b, c]) = Num (cnt [a, b, c])"
    "at_col out ''Percent'' (mk i [a, b, c]) =
       cell_mul (cell_div (Num (cnt [a, b, c])) (Num (tot [a, b, c]))) (Num 100)" for i a b c
    by (simp_all add: at_col_def pos cell_at_def mk_def)
  \<comment> \<open>the rows of the group in the result\<close>
  have grp: "group_records out p e =
               map (\<lambda>(i, k). mk i k) (filter (\<lambda>(i, k). take 2 k = [p, e]) (enumerate 0 ks))"
  proof -
    have "group_records out p e =
       map (\<lambda>(i, k). mk i k)
         (filter (\<lambda>(i, k). at_col out ''Parent'' (mk i k) = p \<and>
                    at_col out ''Education Level'' (mk i k) = e) (enumerate 0 ks))"
      unfolding group_records_def by (simp add: out_def filter_map_enumerate)
    also have "filter (\<lambda>(i, k). at_col out ''Parent'' (mk i k) = p \<and>
                    at_col out ''Education Level'' (mk i k) = e) (enumerate 0 ks) =
        filter (\<lambda>(i, k). take 2 k = [p, e]) (enumerate 0 ks)"
    proof (rule filter_enumerate_cong)
      fix i k assume "k \<in> set ks"
      from len [OF this] obtain a b c where "k = [a, b, c]" by (rule length3E)
      then show "(at_col out ''Parent'' (mk i k) = p \<and>
              at_col out ''Education Level'' (mk i k) = e) = (take 2 k = [p, e])"
        by (simp add: cell)
    qed
    finally show ?thesis .
  qed
  \<comment> \<open>the counts of the group add up to the number of its records that have a target\<close>
  have dgk: "distinct gk" by (simp add: gk_def ks_def distinct_observed_keys)
  have key_in: "row_key ps r \<in> set gk \<longleftrightarrow>
                  (at_col df ''Parent'' r = p \<and> at_col df ''Education Level'' r = e) \<and>
                  at_col df t r \<noteq> NaN"
    if "r \<in> set (rows df)" for r
  proof
    assume in_gk: "row_key ps r \<in> set gk"
    then have "row_key ps r \<in> set ks" by (simp add: gk_def)
    from nonan [OF this] have "at_col df t r \<noteq> NaN"
      by (auto simp: ps_def row_key_def at_col_pos [OF T])
    moreover from in_gk have "at_col df ''Parent'' r = p \<and> at_col df ''Education Level'' r = e"
      by (simp add: gk_def ps_def row_key_def at_col_pos [OF P] at_col_pos [OF E])
    ultimately show "(at_col df ''Parent'' r = p \<and> at_col df ''Education Level'' r = e) \<and>
                  at_col df t r \<noteq> NaN" by simp
  next
    assume pe': "(at_col df ''Parent'' r = p \<and> at_col df ''Education Level'' r = e) \<and>
                  at_col df t r \<noteq> NaN"
    with pe have "NaN \<notin> set (row_key ps r)"
      by (auto simp: ps_def row_key_def at_col_pos [OF P] at_col_pos [OF E] at_col_pos [OF T])
    with that have "row_key ps r \<in> set ks"
      by (auto simp: ks_def set_observed_keys)
    moreover have "take 2 (row_key ps r) = [p, e]"
      using pe' by (simp add: ps_def row_key_def at_col_pos [OF P] at_col_pos [OF E])
    ultimately show "row_key ps r \<in> set gk" by (simp add: gk_def)
  qed
  have "sum_list (map (\<lambda>k. length (filter (\<lambda>r. row_key ps r = k) (rows df))) gk) =
          length (filter (\<lambda>r. row_key ps r \<in> set gk) (rows df))"
    by (rule sum_group_sizes [OF dgk])
  also have "filter (\<lambda>r. row_key ps r \<in> set gk) (rows df) = counted_records df t p e"
    unfolding counted_records_def group_records_def filter_filter
    by (rule filter_cong [OF refl]) (rule key_in)
  finally have "sum_list (map (\<lambda>k. length (filter (\<lambda>r. row_key ps r = k) (rows df))) gk) =
       length (counted_records df t p e)" .
  then have "rat_of_nat (sum_list (map (\<lambda>k. length (filter (\<lambda>r. row_key ps r = k) (rows df))) gk)) = N"
    by (simp add: N_def)
  moreover have "sum_list (map cnt gk) =
      rat_of_nat (sum_list (map (\<lambda>k. length (filter (\<lambda>r. row_key ps r = k) (rows df))) gk))"
    unfolding cnt_def by (induction gk) simp_all
  ultimately have sumN: "sum_list (map cnt gk) = N" by simp
  have Npos: "0 < N" using ne by (simp add: N_def)
  have cnt0: "0 \<le> cnt k" for k by (simp add: cnt_def)
  have totN: "tot k = N" if "k \<in> set gk" for k
    using that sumN by (simp add: tot_def gk_def)
  \<comment> \<open>the two columns of the group\<close>
  have count_col: "map (\<lambda>r. num_of (at_col out ''Count'' r)) (group_records out p e) = map cnt gk"
  proof -
    have "map (\<lambda>r. num_of (at_col out ''Count'' r)) (group_records out p e) =
        map (\<lambda>(i, k). num_of (at_col out ''Count'' (mk i k)))
          (filter (\<lambda>(i, k). take 2 k = [p, e]) (enumerate 0 ks))"
      unfolding grp by (simp add: case_prod_unfold comp_def)
    also have "\<dots> = map (\<lambda>(i, k). cnt k) (filter (\<lambda>(i, k). take 2 k = [p, e]) (enumerate 0 ks))"
    proof (rule map_filter_enumerate_cong)
      fix i k assume "k \<in> set ks"
      from len [OF this] obtain a b c where "k = [a, b, c]" by (rule length3E)
      then show "num_of (at_col out ''Count'' (mk i k)) = cnt k"
        by (simp add: cell num_of_def)
    qed
    also have "\<dots> = map cnt gk" unfolding gk_def by (rule filter_enumerate_map)
    finally show ?thesis .
  qed
  have pct_col: "map (\<lambda>r. num_of (at_col out ''Percent'' r)) (group_records out p e) =
                   map (\<lambda>k. fl (fl (cnt k / N) * 100)) gk"
  proof -
    have "map (\<lambda>r. num_of (at_col out ''Percent'' r)) (group_records out p e) =
        map (\<lambda>(i, k). num_of (at_col out ''Percent'' (mk i k)))
          (filter (\<lambda>(i, k). take 2 k = [p, e]) (enumerate 0 ks))"
      unfolding grp by (simp add: case_prod_unfold comp_def)
    also have "\<dots> = map (\<lambda>(i, k). fl (fl (cnt k / N) * 100))
          (filter (\<lambda>(i, k). take 2 k = [p, e]) (enumerate 0 ks))"
    proof (rule map_filter_enumerate_cong)
      fix i k assume k: "k \<in> set ks" and "take 2 k = [p, e]"
      then have "k \<in> set gk" by (simp add: gk_def)
      from totN [OF this] have tk: "tot k = N" .
      from len [OF k] obtain a b c where "k = [a, b, c]" by (rule length3E)
      with tk Npos show "num_of (at_col out ''Percent'' (mk i k)) = fl (fl (cnt k / N) * 100)"
        by (simp add: cell num_of_def cell_mul_def cell_div_def)
    qed
    also have "\<dots> = map (\<lambda>k. fl (fl (cnt k / N) * 100)) gk"
      unfolding gk_def by (rule filter_enumerate_map)
    finally show ?thesis .
  qed
  \<comment> \<open>the percentages add up to 100 within the rounding errors\<close>
  define B :: rat where "B = 100 * (2 * (1 / 2 ^ 53) + (1 / 2 ^ 53) * (1 / 2 ^ 53))"
  have exact: "sum_list (map (\<lambda>k. cnt k / N * 100) gk) = 100"
    unfolding sum_list_scaled sumN using Npos by simp
  have "\<bar>sum_list (map (\<lambda>k. fl (fl (cnt k / N) * 100)) gk) - 100\<bar> =
        \<bar>sum_list (map (\<lambda>k. fl (fl (cnt k / N) * 100)) gk) - sum_list (map (\<lambda>k. cnt k / N * 100) gk)\<bar>"
    by (simp only: exact)
  also have "\<dots> \<le> sum_list (map (\<lambda>k. \<bar>fl (fl (cnt k / N) * 100) - cnt k / N * 100\<bar>) gk)"
    by (rule sum_list_abs_diff)
  also have "\<dots> \<le> sum_list (map (\<lambda>k. cnt k / N * B) gk)"
  proof (rule sum_list_mono)
    fix k
    have "\<bar>fl (fl (cnt k / N) * 100) - cnt k / N * 100\<bar> \<le> \<bar>cnt k / N\<bar> * B"
      unfolding B_def by (rule percent_error)
    moreover have "\<bar>cnt k / N\<bar> = cnt k / N" using cnt0 [of k] Npos by simp
    ultimately show "\<bar>fl (fl (cnt k / N) * 100) - cnt k / N * 100\<bar> \<le> cnt k / N * B"
      by (simp only:)
  qed
  also have "\<dots> = B" unfolding sum_list_scaled sumN using Npos by simp
  also have "B \<le> 100 / 10 ^ 9" unfolding B_def by (rule percent_tolerance)
  finally have s1: "\<bar>sum_list (map (\<lambda>r. num_of (at_col out ''Percent'' r)) (group_records out p e)) - 100\<bar>
             \<le> 100 / 10 ^ 9"
    unfolding pct_col .
  have s2: "sum_list (map (\<lambda>r. num_of (at_col out ''Count'' r)) (group_records out p e)) =
             of_nat (length (counted_records df t p e))"
    unfolding count_col sumN by (simp add: N_def)
  \<comment> \<open>a group with one target value\<close>
  have s3: "map snd (group_records out p e) =
                  [[p, e, v, Num (of_nat (length (counted_records df t p e))), Num 100]]"
    if one: "\<forall>r\<in>set (counted_records df t p e). at_col df t r = v" for v
  proof -
    from ne obtain r0 where r0: "r0 \<in> set (counted_records df t p e)"
      by (cases "counted_records df t p e") auto
    have cr: "r \<in> set (counted_records df t p e) \<longleftrightarrow>
                r \<in> set (rows df) \<and> (at_col df ''Parent'' r = p \<and> at_col df ''Education Level'' r = e) \<and>
                at_col df t r \<noteq> NaN" for r
      by (auto simp: counted_records_def group_records_def)
    have "set gk = {[p, e, v]}"
    proof (rule set_eqI)
      fix k
      show "k \<in> set gk \<longleftrightarrow> k \<in> {[p, e, v]}"
      proof
        assume "k \<in> set gk"
        then have "k \<in> set ks" "take 2 k = [p, e]" by (simp_all add: gk_def)
        from this(1) obtain r where r: "r \<in> set (rows df)" "k = row_key ps r"
          by (auto simp: ks_def set_observed_keys)
        with \<open>k \<in> set gk\<close> key_in [OF r(1)] have "r \<in> set (counted_records df t p e)"
          by (simp add: cr)
        with one have "at_col df t r = v" by blast
        with r(2) \<open>take 2 k = [p, e]\<close> show "k \<in> {[p, e, v]}"
          by (simp add: ps_def row_key_def at_col_pos [OF T])
      next
        assume "k \<in> {[p, e, v]}"
        then have k: "k = [p, e, v]" by simp
        from r0 have r0': "r0 \<in> set (rows df)"
          "(at_col df ''Parent'' r0 = p \<and> at_col df ''Education Level'' r0 = e) \<and> at_col df t r0 \<noteq> NaN"
          by (simp_all add: cr)
        with key_in [OF r0'(1)] have "row_key ps r0 \<in> set gk" by simp
        moreover have "row_key ps r0 = [p, e, v]"
          using r0' one r0 by (simp add: ps_def row_key_def at_col_pos [OF P] at_col_pos [OF E]
              at_col_pos [OF T, symmetric])
        ultimately show "k \<in> set gk" using k by simp
      qed
    qed
    with dgk have gk1: "gk = [[p, e, v]]" by (rule singleton_list)
    then have cN: "cnt [p, e, v] = N" using sumN by simp
    have tN: "tot [p, e, v] = N" using totN [of "[p, e, v]"] gk1 by simp
    have "map snd (group_records out p e) =
            map (\<lambda>(i, k). snd (mk i k)) (filter (\<lambda>(i, k). take 2 k = [p, e]) (enumerate 0 ks))"
      unfolding grp by (simp add: case_prod_unfold comp_def)
    also have "\<dots> = map (\<lambda>k. snd (mk 0 k)) gk"
      unfolding gk_def
      using filter_enumerate_map [of "\<lambda>k. snd (mk 0 k)" "\<lambda>k. take 2 k = [p, e]" 0 ks]
      by (simp add: mk_def)
    also have "\<dots> = [[p, e, v, Num N, Num 100]]"
      using Npos by (simp add: gk1 mk_def cN tN cell_mul_def cell_div_def fl_one fl_hundred)
    finally show ?thesis by (simp add: N_def)
  qed
  show ?thesis
    apply (rule exI [of _ out])
    apply (intro conjI allI impI)
       apply (rule res)
      apply (rule s1)
     apply (rule s2)
    apply (rule s3, assumption)
    done
qed

lemma df_miss_facts:
  "wf_frame df_miss"
  "''Parent'' \<in> set (columns df_miss)"
  "''Education Level'' \<in> set (columns df_miss)"
  "''Target'' \<in> set (columns df_miss)"
  by (simp_all add: wf_frame_def df_miss_def columns_def)

lemma df_miss_counted:
  "counted_records df_miss ''Target'' (Str ''Mother'') (Str ''Test Level'') =
     [(Num 0, [Str ''Mother'', Str ''Test Level'', Str ''A''])]"
  by (simp add: counted_records_def group_records_def df_miss_def at_col_def col_pos_def
        columns_def cell_at_def)

theorem compute_percent_group_sums_witness:
  "\<exists>out. compute_percent df_miss ''Target'' = Inr out \<and>
     \<bar>sum_list (map (\<lambda>r. num_of (at_col out ''Percent'' r))
                 (group_records out (Str ''Mother'') (Str ''Test Level''))) - 100\<bar> \<le> 100 / 10 ^ 9 \<and>
     sum_list (map (\<lambda>r. num_of (at_col out ''Count'' r))
                 (group_records out (Str ''Mother'') (Str ''Test Level''))) = 1 \<and>
     map snd (group_records out (Str ''Mother'') (Str ''Test Level'')) =
       [[Str ''Mother'', Str ''Test Level'', Str ''A'', Num 1, Num 100]]"
proof -
  have d: "distinct [''Parent'', ''Education Level'', ''Target'', ''Count'', ''Percent'']"
    by simp
  have pe: "Str ''Mother'' \<noteq> NaN" "Str ''Test Level'' \<noteq> NaN" by simp_all
  have ne: "counted_records df_miss ''Target'' (Str ''Mother'') (Str ''Test Level'') \<noteq> []"
    by (simp add: df_miss_counted)
  have one: "\<forall>r\<in>set (counted_records df_miss ''Target'' (Str ''Mother'') (Str ''Test Level'')).
               at_col df_miss ''Target'' r = Str ''A''"
    by (simp add: df_miss_counted)
      (simp add: df_miss_def at_col_def col_pos_def columns_def cell_at_def)
  from compute_percent_group_sums [OF df_miss_facts d pe ne]
  obtain out where out: "compute_percent df_miss ''Target'' = Inr out"
    "\<bar>sum_list (map (\<lambda>r. num_of (at_col out ''Percent'' r))
                 (group_records out (Str ''Mother'') (Str ''Test Level''))) - 100\<bar> \<le> 100 / 10 ^ 9"
    "sum_list (map (\<lambda>r. num_of (at_col out ''Count'' r))
                 (group_records out (Str ''Mother'') (Str ''Test Level''))) =
       of_nat (length (counted_records df_miss ''Target'' (Str ''Mother'') (Str ''Test Level'')))"
    "\<And>v. (\<forall>r\<in>set (counted_records df_miss ''Target'' (Str ''Mother'') (Str ''Test Level'')).
               at_col df_miss ''Target'' r = v) \<Longrightarrow>
          map snd (group_records out (Str ''Mother'') (Str ''Test Level'')) =
            [[Str ''Mother'', Str ''Test Level'', v,
              Num (of_nat (length (counted_records df_miss ''Target'' (Str ''Mother'') (Str ''Test Level'')))),
              Num 100]]"
    by blast
  from out(4) [OF one] out(1-3) show ?thesis
    by (simp add: df_miss_counted)
qed

text \<open>
  Claim C1, as stated, fails: the group \<open>(Mother, Test Level)\<close> of \<open>df_miss\<close> has two records,
  one of them without a target value; \<^verbatim>\<open>compute_percent\<close> succeeds and the group's only row
  has \<^verbatim>\<open>Count\<close> 1, so the \<^verbatim>\<open>Count\<close> values of the group sum to 1, not to the group's 2 records.
\<close>

theorem compute_percent_count_counterexample:
  "compute_percent df_miss ''Target'' =
     Inr \<lparr>cols = [(''Parent'', Plain), (''Education Level'', Plain), (''Target'', Plain),
                  (''Count'', Plain), (''Percent'', Plain)],
          rows = [(Num 0, [Str ''Mother'', Str ''Test Level'', Str ''A'', Num 1, Num 100])]\<rparr> \<and>
   length (group_records df_miss (Str ''Mother'') (Str ''Test Level'')) = 2"
  by code_simp

text \<open>
  Three equal shares are each \<^verbatim>\<open>33.33333333333333\<close>, the \<^verbatim>\<open>float64\<close> number
  \<open>2345624805922133 / 2\<^sup>4\<^sup>6\<close>; they add up to \<open>100 - 2\<^sup>-\<^sup>4\<^sup>6\<close>.
\<close>

lemma compute_percent_thirds_df:
  "compute_percent thirds_df ''Target'' =
     Inr \<lparr>cols = [(''Parent'', Plain), (''Education Level'', Plain), (''Target'', Plain),
                  (''Count'', Plain), (''Percent'', Plain)],
          rows = [(Num 0, [Str ''Mother'', Str ''Test Level'', Str ''A'', Num 1,
                           Num (2345624805922133 / 70368744177664)]),
                  (Num 1, [Str ''Mother'', Str ''Test Level'', Str ''B'', Num 1,
                           Num (2345624805922133 / 70368744177664)]),
                  (Num 2, [Str ''Mother'', Str ''Test Level'', Str ''C'', Num 1,
                           Num (2345624805922133 / 70368744177664)])]\<rparr>"
  by code_simp

lemma percent_df_facts:
  "wf_frame percent_df"
  "''Parent'' \<in> set (columns percent_df)"
  "''Education Level'' \<in> set (columns percent_df)"
  "''Target'' \<in> set (columns percent_df)"
  by (simp_all add: wf_frame_def percent_df_def columns_def)

lemma percent_df_Mother:
  "group_records percent_df (Str ''Mother'') (Str ''Test Level'') =
     [(Num 0, [Str ''Mother'', Num 20, Num 2, Str ''Test Level'', Str ''A'']),
      (Num 1, [Str ''Mother'', Num 21, Num 3, Str ''Test Level'', Str ''B''])]"
  by (simp add: group_records_def percent_df_def at_col_def col_pos_def columns_def cell_at_def)

lemma compute_percent_percent_df:
  "compute_percent percent_df ''Target'' = Inr percent_out"
  by code_simp

lemma uniq_distinct: "distinct xs \<Longrightarrow> uniq xs = xs"
  by (simp add: uniq_def distinct_remdups_id)

lemma filter_eq_distinct:
  "distinct xs \<Longrightarrow> k \<in> set xs \<Longrightarrow> filter (\<lambda>x. x = k) xs = [k]"
  by (induction xs) (auto simp: filter_empty_conv)

lemma map_snd_enumerate': "map (\<lambda>(i, k). k) (enumerate n ks) = ks"
  by (induction ks arbitrary: n) auto

lemma filter_enumerate_all:
  assumes "\<And>i k. k \<in> set ks \<Longrightarrow> P i k"
  shows "filter (\<lambda>(i, k). P i k) (enumerate n ks) = enumerate n ks"
  using assms by (induction ks arbitrary: n) auto

text \<open>
  Claim C9, amended. For the table \<open>out\<close> that \<^verbatim>\<open>compute_percent\<close> produces (from a
  well-formed table with the three key columns, the target column distinct from the
  result's labels): each \<^verbatim>\<open>(Parent, Education Level, Target)\<close> combination occurs in exactly
  one row; grouping \<open>out\<close> again by these three keys, the keys \<^verbatim>\<open>compute_percent\<close> counted by,
  and summing \<^verbatim>\<open>Count\<close> gives, group by group and in the same order, the keys and the
  \<^verbatim>\<open>Count\<close> of the rows of \<open>out\<close>; and normalising \<open>out\<close> again by its
  \<^verbatim>\<open>(Parent, Education Level)\<close> groups (the second statement of \<^verbatim>\<open>compute_percent\<close>) returns
  \<open>out\<close> unchanged.
\<close>

theorem compute_percent_regroup_stable:
  assumes wf: "wf_frame df"
    and cs: "''Parent'' \<in> set (columns df)" "''Education Level'' \<in> set (columns df)"
      "t \<in> set (columns df)"
    and d: "distinct [''Parent'', ''Education Level'', t, ''Count'', ''Percent'']"
  shows "\<exists>out. compute_percent df t = Inr out \<and>
           distinct (map (\<lambda>r. [at_col out ''Parent'' r, at_col out ''Education Level'' r,
                                at_col out t r]) (rows out)) \<and>
           groupby_sum out [''Parent'', ''Education Level'', t] ''Count'' =
             Inr (map (\<lambda>r. ([at_col out ''Parent'' r, at_col out ''Education Level'' r, at_col out t r],
                             at_col out ''Count'' r)) (rows out)) \<and>
           add_percent out = Inr out"
proof -
  from col_pos_mem [OF cs(1)] obtain iP where P: "col_pos df ''Parent'' = Some iP" ..
  from col_pos_mem [OF cs(2)] obtain iE where E: "col_pos df ''Education Level'' = Some iE" ..
  from col_pos_mem [OF cs(3)] obtain iT where T: "col_pos df t = Some iT" ..
  define ps where "ps = [iP, iE, iT]"
  define ks where "ks = observed_keys df ps"
  define cnt where "cnt = (\<lambda>k. (of_nat (length (filter (\<lambda>r. row_key ps r = k) (rows df))) :: rat))"
  define tot where "tot = (\<lambda>k. sum_list (map cnt (filter (\<lambda>k'. take 2 k' = take 2 k) ks)))"
  define mk where "mk = (\<lambda>i k. (Num (of_nat i) :: cell,
       k @ [Num (cnt k), cell_mul (cell_div (Num (cnt k)) (Num (tot k))) (Num 100)]))"
  define out where "out =
     \<lparr>cols = [cols df ! iP, cols df ! iE, cols df ! iT, (''Count'', Plain), (''Percent'', Plain)],
      rows = map (\<lambda>(i, k). mk i k) (enumerate 0 ks)\<rparr>"
  have res: "compute_percent df t = Inr out"
    unfolding out_def mk_def tot_def cnt_def ks_def ps_def
    by (rule compute_percent_closed [OF P E T d])
  have len: "length k = 3" and nonan: "NaN \<notin> set k" if "k \<in> set ks" for k
    using observed_key_props [of k df ps] that by (simp_all add: ks_def ps_def)
  have dks: "distinct ks" by (simp add: ks_def distinct_observed_keys)
  obtain dP dE dT where cP: "cols df ! iP = (''Parent'', dP)"
      and cE: "cols df ! iE = (''Education Level'', dE)" and cT: "cols df ! iT = (t, dT)"
    using col_pos_Some(2) [OF P] col_pos_Some(2) [OF E] col_pos_Some(2) [OF T] by blast
  have pos: "col_pos out ''Parent'' = Some 0" "col_pos out ''Education Level'' = Some 1"
    "col_pos out t = Some 2" "col_pos out ''Count'' = Some 3" "col_pos out ''Percent'' = Some 4"
    using d by (auto simp: col_pos_def columns_def out_def cP cE cT)
  have cell: "at_col out ''Parent'' (mk i [a, b, c]) = a"
    "at_col out ''Education Level'' (mk i [a, b, c]) = b"
    "at_col out t (mk i [a, b, c]) = c"
    "at_col out ''Count'' (mk i [a, b, c]) = Num (cnt [a, b, c])" for i a b c
    by (simp_all add: at_col_def pos cell_at_def mk_def)
  have key: "[at_col out ''Parent'' (mk i k), at_col out ''Education Level'' (mk i k),
              at_col out t (mk i k)] = k"
    and cntk: "at_col out ''Count'' (mk i k) = Num (cnt k)"
    and rk: "row_key [0, 1, 2] (mk i k) = k" if "k \<in> set ks" for i k
  proof -
    from len [OF that] obtain a b c where k: "k = [a, b, c]" by (rule length3E)
    show "[at_col out ''Parent'' (mk i k), at_col out ''Education Level'' (mk i k),
              at_col out t (mk i k)] = k"
      and "at_col out ''Count'' (mk i k) = Num (cnt k)"
      by (simp_all add: k cell)
    show "row_key [0, 1, 2] (mk i k) = k"
      by (simp add: k row_key_def cell_at_def mk_def)
  qed
  note rk' = rk [unfolded One_nat_def]
  \<comment> \<open>the keys of the rows are the observed keys, each once\<close>
  have keys: "map (\<lambda>r. [at_col out ''Parent'' r, at_col out ''Education Level'' r, at_col out t r])
                (rows out) = ks"
  proof -
    have "map (\<lambda>r. [at_col out ''Parent'' r, at_col out ''Education Level'' r, at_col out t r])
                (rows out) =
          map (\<lambda>(i, k). [at_col out ''Parent'' (mk i k), at_col out ''Education Level'' (mk i k),
                at_col out t (mk i k)]) (enumerate 0 ks)"
      by (auto simp: out_def)
    also have "\<dots> = map (\<lambda>(i, k). k) (enumerate 0 ks)"
      by (rule map_enumerate_cong) (rule key)
    finally show ?thesis by (simp add: map_snd_enumerate')
  qed
  \<comment> \<open>grouping the result again\<close>
  define g where "g = \<lparr>source = out, key_cols = [cols df ! iP, cols df ! iE, cols df ! iT],
      key_pos = [0, 1, 2], group_list = ks\<rparr>"
  have obs: "observed_keys out [0, 1, 2] = ks"
  proof -
    have "filter (\<lambda>r. NaN \<notin> set (row_key [0, 1, 2] r)) (rows out) =
            map (\<lambda>(i, k). mk i k)
              (filter (\<lambda>(i, k). NaN \<notin> set (row_key [0, 1, 2] (mk i k))) (enumerate 0 ks))"
      unfolding out_def by (simp add: filter_map_enumerate)
    also have "filter (\<lambda>(i, k). NaN \<notin> set (row_key [0, 1, 2] (mk i k))) (enumerate 0 ks) =
                 enumerate 0 ks"
      by (rule filter_enumerate_all) (simp add: rk' nonan)
    finally have "map (row_key [0, 1, 2]) (filter (\<lambda>r. NaN \<notin> set (row_key [0, 1, 2] r)) (rows out)) =
        map (\<lambda>(i, k). row_key [0, 1, 2] (mk i k)) (enumerate 0 ks)"
      by (simp add: case_prod_unfold comp_def)
    also have "\<dots> = map (\<lambda>(i, k). k) (enumerate 0 ks)"
      by (rule map_enumerate_cong) (rule rk)
    finally have m: "map (row_key [0, 1, 2]) (filter (\<lambda>r. NaN \<notin> set (row_key [0, 1, 2] r)) (rows out)) = ks"
      by (simp add: map_snd_enumerate')
    have ds: "map (\<lambda>i. snd (cols out ! i)) [0, 1, 2] = map (\<lambda>i. snd (cols df ! i)) ps"
      by (simp add: out_def ps_def)
    have "sorted (map (key_rank (map (\<lambda>i. snd (cols out ! i)) [0, 1, 2])) ks)"
      unfolding ds ks_def by (rule sorted_observed_keys)
    then show ?thesis
      unfolding observed_keys_def m uniq_distinct [OF dks]
      by (rule sort_key_id_if_sorted)
  qed
  have G: "groupby out [''Parent'', ''Education Level'', t] = Inr g"
  proof -
    have "those (map (col_pos out) [''Parent'', ''Education Level'', t]) = Some [0, 1, 2]"
      by (simp add: pos)
    from groupby_present [OF this]
    have "groupby out [''Parent'', ''Education Level'', t] =
       Inr \<lparr>source = out, key_cols = map (\<lambda>i. cols out ! i) [0, 1, 2], key_pos = [0, 1, 2],
            group_list = ks\<rparr>"
      by (simp only: obs)
    moreover have "map (\<lambda>i. cols out ! i) [0, 1, 2] = [cols df ! iP, cols df ! iE, cols df ! iT]"
      by (simp add: out_def)
    ultimately show ?thesis by (simp only: g_def)
  qed
  have c3: "cell_at 3 = at_col out ''Count''"
    by (rule ext) (simp add: at_col_pos [OF pos(4)])
  have agg: "sum_list (nums (map (cell_at 3) (members g k))) = cnt k"
    if "k \<in> set ks" for k
  proof -
    have "members g k = map (\<lambda>(i, k). mk i k)
              (filter (\<lambda>(i, k'). row_key [0, 1, 2] (mk i k') = k) (enumerate 0 ks))"
      unfolding members_def g_def by (simp add: out_def filter_map_enumerate)
    also have "filter (\<lambda>(i, k'). row_key [0, 1, 2] (mk i k') = k) (enumerate 0 ks) =
        filter (\<lambda>(i, k'). k' = k) (enumerate 0 ks)"
      by (rule filter_enumerate_cong) (simp add: rk')
    finally have "map (at_col out ''Count'') (members g k) =
        map (\<lambda>(i, k'). at_col out ''Count'' (mk i k')) (filter (\<lambda>(i, k'). k' = k) (enumerate 0 ks))"
      by (simp add: case_prod_unfold comp_def)
    also have "\<dots> = map (\<lambda>(i, k'). Num (cnt k')) (filter (\<lambda>(i, k'). k' = k) (enumerate 0 ks))"
      by (rule map_filter_enumerate_cong) (rule cntk)
    also have "\<dots> = map (\<lambda>k'. Num (cnt k')) (filter (\<lambda>k'. k' = k) ks)"
      by (rule filter_enumerate_map)
    also have "\<dots> = [Num (cnt k)]"
      by (simp add: filter_eq_distinct [OF dks that])
    finally show ?thesis by (simp add: nums_def c3)
  qed
  have re: "groupby_sum out [''Parent'', ''Education Level'', t] ''Count'' =
             Inr (map (\<lambda>r. ([at_col out ''Parent'' r, at_col out ''Education Level'' r, at_col out t r],
                             at_col out ''Count'' r)) (rows out))"
  proof -
    have "map (\<lambda>r. ([at_col out ''Parent'' r, at_col out ''Education Level'' r, at_col out t r],
                        at_col out ''Count'' r)) (rows out) =
          map (\<lambda>(i, k). ([at_col out ''Parent'' (mk i k), at_col out ''Education Level'' (mk i k),
                           at_col out t (mk i k)], at_col out ''Count'' (mk i k)))
            (enumerate 0 ks)"
      by (auto simp: out_def)
    also have "\<dots> = map (\<lambda>(i, k). (k, Num (cnt k))) (enumerate 0 ks)"
      by (rule map_enumerate_cong) (simp add: key cntk)
    also have "\<dots> = map (\<lambda>k. (k, Num (cnt k))) ks"
      using filter_enumerate_map [of "\<lambda>k. (k, Num (cnt k))" "\<lambda>k. True" 0 ks] by simp
    also have "\<dots> = map (\<lambda>k. (k, Num (sum_list (nums (map (cell_at 3) (members g k)))))) ks"
      by (rule map_cong [OF refl]) (simp add: agg)
    finally have "map (\<lambda>k. (k, Num (sum_list (nums (map (cell_at 3) (members g k)))))) (group_list g) =
        map (\<lambda>r. ([at_col out ''Parent'' r, at_col out ''Education Level'' r, at_col out t r],
                        at_col out ''Count'' r)) (rows out)"
      by (simp add: g_def)
    then show ?thesis
      unfolding groupby_sum_def G by (simp add: pos(4))
  qed
  have dist: "distinct (map (\<lambda>r. [at_col out ''Parent'' r, at_col out ''Education Level'' r,
                                at_col out t r]) (rows out))"
    unfolding keys by (rule dks)
  \<comment> \<open>normalising the result again by \<^verbatim>\<open>(Parent, Education Level)\<close> changes nothing\<close>
  have again: "add_percent out = Inr out"
  proof -
    define pct where "pct = (\<lambda>k. cell_mul (cell_div (Num (cnt k)) (Num (tot k))) (Num 100))"
    have rws: "rows out =
        map (\<lambda>(i, k). (Num (of_nat i), k @ Num (cnt k) # (\<lambda>i k. [pct k]) i k)) (enumerate 0 ks)"
      by (simp add: out_def mk_def pct_def)
    have "add_percent out =
            Inr (setitem out ''Percent'' Plain (map (\<lambda>(i, k). pct k) (enumerate 0 ks)))"
      unfolding pct_def tot_def
      by (rule add_percent_counts [OF pos(1,2,4) rws len nonan])
    moreover have "setitem out ''Percent'' Plain (map (\<lambda>(i, k). pct k) (enumerate 0 ks)) = out"
    proof -
      have "map (\<lambda>(r, v). (fst r, (snd r)[4 := v]))
              (zip (rows out) (map (\<lambda>(i, k). pct k) (enumerate 0 ks))) =
            map (\<lambda>(i, k). (fst (mk i k), (snd (mk i k))[4 := pct k])) (enumerate 0 ks)"
        by (simp add: out_def zip_map_map zip_same_conv_map case_prod_unfold comp_def)
      also have "\<dots> = map (\<lambda>(i, k). mk i k) (enumerate 0 ks)"
      proof (rule map_enumerate_cong)
        fix i k assume "k \<in> set ks"
        from len [OF this] obtain a b c where "k = [a, b, c]" by (rule length3E)
        then show "(fst (mk i k), (snd (mk i k))[4 := pct k]) = mk i k"
          by (simp add: mk_def pct_def)
      qed
      finally have r: "map (\<lambda>(r, v). (fst r, (snd r)[4 := v]))
              (zip (rows out) (map (\<lambda>(i, k). pct k) (enumerate 0 ks))) = rows out"
        by (simp add: out_def)
      have c: "(cols out)[4 := (''Percent'', Plain)] = cols out"
        by (simp add: out_def)
      show ?thesis
        unfolding setitem_def pos(5) by (simp add: r c)
    qed
    ultimately show ?thesis by simp
  qed
  show ?thesis
    apply (rule exI [of _ out])
    apply (intro conjI)
       apply (rule res)
      apply (rule dist)
     apply (rule re)
    apply (rule again)
    done
qed


theorem compute_percent_regroup_stable_witness:
  "\<exists>out. compute_percent percent_df ''Target'' = Inr out \<and>
     distinct (map (\<lambda>r. [at_col out ''Parent'' r, at_col out ''Education Level'' r,
                          at_col out ''Target'' r]) (rows out)) \<and>
     groupby_sum out [''Parent'', ''Education Level'', ''Target''] ''Count'' =
       Inr (map (\<lambda>r. ([at_col out ''Parent'' r, at_col out ''Education Level'' r,
                         at_col out ''Target'' r], at_col out ''Count'' r)) (rows out)) \<and>
     add_percent out = Inr out"
proof -
  have d: "distinct [''Parent'', ''Education Level'', ''Target'', ''Count'', ''Percent'']"
    by simp
  from compute_percent_regroup_stable [OF percent_df_facts d]
  show ?thesis .
qed

text \<open>
  Claim C9, as stated, fails: the result for the table of the test has four rows, each
  with \<^verbatim>\<open>Count\<close> 1; grouped by its \<^verbatim>\<open>(Parent, Education Level)\<close> keys, with \<^verbatim>\<open>Count\<close> summed, it has
  two groups with \<^verbatim>\<open>Count\<close> 2, which are not the original \<^verbatim>\<open>Count\<close> values.
\<close>

theorem compute_percent_regroup_counterexample:
  "compute_percent percent_df ''Target'' = Inr percent_out \<and>
   groupby_sum percent_out [''Parent'', ''Education Level''] ''Count'' =
     Inr [([Str ''Father'', Str ''Test Level''], Num 2),
          ([Str ''Mother'', Str ''Test Level''], Num 2)] \<and>
   getitem percent_out ''Count'' = Inr [Num 1, Num 1, Num 1, Num 1]"
  by code_simp



























lemma compute_summary_stats_categorical:
  assumes P: "''Parent'' \<in> set (columns df)" and E: "''Education Level'' \<in> set (columns df)"
    and res: "v \<notin> {''Parent'', ''Education Level''}"
    and cat: "dtype_of df v = Some (Categorical cats ordered)"
  shows "compute_summary_stats df v = Inl TypeError"
proof -
  from col_pos_mem [OF P] obtain iP where P: "col_pos df ''Parent'' = Some iP" ..
  from col_pos_mem [OF E] obtain iE where E: "col_pos df ''Education Level'' = Some iE" ..
  from cat obtain iV where V: "col_pos df v = Some iV"
    and dV: "snd (cols df ! iV) = Categorical cats ordered"
    by (auto simp: dtype_of_def)
  obtain dP dE where cP: "cols df ! iP = (''Parent'', dP)"
      and cE: "cols df ! iE = (''Education Level'', dE)"
    using col_pos_Some(2) [OF P] col_pos_Some(2) [OF E] by blast
  have th: "those (map (col_pos df) [''Parent'', ''Education Level'']) = Some [iP, iE]"
    by (simp add: P E)
  define g where "g = \<lparr>source = df,
      key_cols = [(''Parent'', dP), (''Education Level'', dE)],
      key_pos = [iP, iE], group_list = observed_keys df [iP, iE]\<rparr>"
  have G: "groupby df [''Parent'', ''Education Level''] = Inr g"
    unfolding groupby_present [OF th] by (simp add: g_def cP cE)
  have "agg g [(''Mean_Age'', v, mean), (''Median_Age'', v, median)] = Inl TypeError"
    unfolding agg_def using res by (simp add: g_def V dV is_categorical_def)
  then show ?thesis
    unfolding compute_summary_stats_def G by simp
qed






lemma compute_summary_stats_ages_df:
  "compute_summary_stats ages_df ''Age'' =
     Inr \<lparr>cols = [(''Parent'', Plain), (''Education Level'', Plain), (''Statistic'', Plain),
                  (''Age'', Plain)],
          rows = [(Num 0, [Str ''Father'', Str ''Test Level'', Str ''Mean'', Num (45 / 2)]),
                  (Num 1, [Str ''Mother'', Str ''Test Level'', Str ''Mean'',
                           Num (6004799503160661 / 281474976710656)]),
                  (Num 2, [Str ''Father'', Str ''Test Level'', Str ''Median'', Num (45 / 2)]),
                  (Num 3, [Str ''Mother'', Str ''Test Level'', Str ''Median'', Num 21])]\<rparr>"
  by code_simp

lemma compute_summary_stats_percent_df:
  "compute_summary_stats percent_df ''Age'' =
     Inr \<lparr>cols = [(''Parent'', Plain), (''Education Level'', Plain), (''Statistic'', Plain),
                  (''Age'', Plain)],
          rows = [(Num 0, [Str ''Father'', Str ''Test Level'', Str ''Mean'', Num (45 / 2)]),
                  (Num 1, [Str ''Mother'', Str ''Test Level'', Str ''Mean'', Num (41 / 2)]),
                  (Num 2, [Str ''Father'', Str ''Test Level'', Str ''Median'', Num (45 / 2)]),
                  (Num 3, [Str ''Mother'', Str ''Test Level'', Str ''Median'', Num (41 / 2)])]\<rparr>"
  by code_simp

lemma drop_missing_simps [simp]:
  "cols (drop_missing df c) = cols df"
  "columns (drop_missing df c) = columns df"
  "col_pos (drop_missing df c) = col_pos df"
  by (simp_all add: drop_missing_def columns_def col_pos_def fun_eq_iff)

lemma rows_drop_missing:
  "rows (drop_missing df c) = filter (\<lambda>r. at_col df c r \<noteq> NaN) (rows df)"
  by (simp add: drop_missing_def)

lemma size_groups_cong:
  assumes "key_cols g = key_cols g'" and "group_list g = group_list g'"
    and "\<And>k. k \<in> set (group_list g) \<Longrightarrow> members g k = members g' k"
  shows "size_groups g = size_groups g'"
  using assms by (simp add: size_groups_def)

lemma agg_cong:
  assumes "key_cols g = key_cols g'" and "group_list g = group_list g'"
    and "col_pos (source g) = col_pos (source g')"
    and "\<And>k. k \<in> set (group_list g) \<Longrightarrow> members g k = members g' k"
    and "cols (source g) = cols (source g')"
  shows "agg g specs = agg g' specs"
proof -
  have 1: "list_ex (\<lambda>k. list_ex (\<lambda>j. list_ex (\<lambda>r. is_Str (cell_at j r)) (members g k)) js)
               (group_list g) =
        list_ex (\<lambda>k. list_ex (\<lambda>j. list_ex (\<lambda>r. is_Str (cell_at j r)) (members g' k)) js)
               (group_list g')" for js
    using assms(2,4) by (auto simp: list_ex_iff)
  have 2: "map (\<lambda>k. (k, map (\<lambda>((n, c, f), j). f (nums (map (cell_at j) (members g k))))
                                             (zip specs js))) (group_list g) =
           map (\<lambda>k. (k, map (\<lambda>((n, c, f), j). f (nums (map (cell_at j) (members g' k))))
                                             (zip specs js))) (group_list g')" for js
    using assms(2,4) by simp
  show ?thesis
    unfolding agg_def 1 2 assms(1,3,5) ..
qed

lemma groupby_drop_missing:
  assumes "c \<in> set keys"
  shows "(\<exists>e. groupby (drop_missing df c) keys = Inl e \<and> groupby df keys = Inl e) \<or>
         (\<exists>g g'. groupby (drop_missing df c) keys = Inr g' \<and> groupby df keys = Inr g \<and>
             key_cols g' = key_cols g \<and> group_list g' = group_list g \<and>
             col_pos (source g') = col_pos (source g) \<and>
             cols (source g') = cols (source g) \<and>
             (\<forall>k\<in>set (group_list g'). members g' k = members g k))"
proof (cases "those (map (col_pos df) keys)")
  case None
  then show ?thesis by (simp add: groupby_def)
next
  case (Some ps)
  from assms Some obtain i where i: "col_pos df c = Some i" "i \<in> set ps"
  proof (induction keys arbitrary: ps thesis)
    case Nil
    then show ?case by simp
  next
    case (Cons a keys)
    from Cons.prems(3) obtain j qs where j: "col_pos df a = Some j"
        "those (map (col_pos df) keys) = Some qs" "ps = j # qs"
      by (auto split: option.splits)
    show ?case
    proof (cases "c = a")
      case True
      with j Cons.prems(1) [of j] show ?thesis by simp
    next
      case False
      with Cons.prems(2) have "c \<in> set keys" by simp
      from Cons.IH [OF _ this j(2)] obtain i where "col_pos df c = Some i" "i \<in> set qs"
        by blast
      with Cons.prems(1) [of i] j(3) show ?thesis by simp
    qed
  qed
  have keep: "at_col df c r \<noteq> NaN" if "NaN \<notin> set (row_key ps r)" for r
  proof
    assume "at_col df c r = NaN"
    then have "cell_at i r = NaN" by (simp add: at_col_pos [OF i(1)])
    with i(2) have "NaN \<in> set (row_key ps r)" by (force simp: row_key_def)
    with that show False by simp
  qed
  have f1: "filter (\<lambda>r. NaN \<notin> set (row_key ps r)) (rows (drop_missing df c)) =
            filter (\<lambda>r. NaN \<notin> set (row_key ps r)) (rows df)"
    by (auto simp: rows_drop_missing keep intro: filter_cong)
  have obs: "observed_keys (drop_missing df c) ps = observed_keys df ps"
    unfolding observed_keys_def f1 by simp
  have mem: "filter (\<lambda>r. row_key ps r = k) (rows (drop_missing df c)) =
             filter (\<lambda>r. row_key ps r = k) (rows df)" if "k \<in> set (observed_keys df ps)" for k
  proof -
    from that have "NaN \<notin> set k" by (rule observed_key_props)
    then show ?thesis by (auto simp: rows_drop_missing keep intro: filter_cong)
  qed
  have "those (map (col_pos (drop_missing df c)) keys) = Some ps" using Some by simp
  from groupby_present [OF this] groupby_present [OF Some] show ?thesis
    by (simp add: obs members_def mem)
qed

lemma compute_percent_drop_missing:
  "compute_percent (drop_missing df ''Education Level'') t = compute_percent df t"
proof -
  have "''Education Level'' \<in> set [''Parent'', ''Education Level'', t]" by simp
  from groupby_drop_missing [OF this, of df] show ?thesis
  proof (elim disjE exE conjE)
    fix e assume "groupby (drop_missing df ''Education Level'') [''Parent'', ''Education Level'', t] = Inl e"
      "groupby df [''Parent'', ''Education Level'', t] = Inl e"
    then show ?thesis by (simp add: compute_percent_def)
  next
    fix g g'
    assume g: "groupby (drop_missing df ''Education Level'') [''Parent'', ''Education Level'', t] = Inr g'"
      "groupby df [''Parent'', ''Education Level'', t] = Inr g"
      and eq: "key_cols g' = key_cols g" "group_list g' = group_list g"
      "\<forall>k\<in>set (group_list g'). members g' k = members g k"
    from eq have "size_groups g' = size_groups g" by (intro size_groups_cong) simp_all
    with g show ?thesis by (simp add: compute_percent_def)
  qed
qed

lemma compute_summary_stats_drop_missing:
  "compute_summary_stats (drop_missing df ''Education Level'') v = compute_summary_stats df v"
proof -
  have "''Education Level'' \<in> set [''Parent'', ''Education Level'']" by simp
  from groupby_drop_missing [OF this, of df] show ?thesis
  proof (elim disjE exE conjE)
    fix e assume "groupby (drop_missing df ''Education Level'') [''Parent'', ''Education Level''] = Inl e"
      "groupby df [''Parent'', ''Education Level''] = Inl e"
    then show ?thesis by (simp add: compute_summary_stats_def)
  next
    fix g g'
    assume g: "groupby (drop_missing df ''Education Level'') [''Parent'', ''Education Level''] = Inr g'"
      "groupby df [''Parent'', ''Education Level''] = Inr g"
      and eq: "key_cols g' = key_cols g" "group_list g' = group_list g"
      "col_pos (source g') = col_pos (source g)"
      "cols (source g') = cols (source g)"
      "\<forall>k\<in>set (group_list g'). members g' k = members g k"
    from eq have "agg g' specs = agg g specs" for specs by (intro agg_cong) simp_all
    with g show ?thesis by (simp add: compute_summary_stats_def)
  qed
qed


text \<open>
  Claim C5. For a well-formed table with the code column (and a valid order list),
  \<^verbatim>\<open>map_and_order_edu\<close> succeeds whatever codes the table holds, and a row whose code has
  no entry in the label map gets the missing value in the label column. The rows with a
  missing \<^verbatim>\<open>Education Level\<close> are in no group of \<^verbatim>\<open>compute_percent\<close> and
  \<^verbatim>\<open>compute_summary_stats\<close>: on every table both give the result they give on the table
  without these rows, so no count, percentage, mean or median depends on them.
\<close>

theorem unmapped_codes_missing_and_excluded:
  assumes "wf_frame df" and "edu_col \<in> set (columns df)"
    and "distinct order" and "NaN \<notin> set order"
  shows "(\<exists>out. map_and_order_edu df edu_col label_col labels order = Inr out \<and>
            length (rows out) = length (rows df) \<and>
            (\<forall>i<length (rows df).
               labels (at_col df edu_col (rows df ! i)) = None \<longrightarrow>
               at_col out label_col (rows out ! i) = NaN)) \<and>
         compute_percent (drop_missing tbl ''Education Level'') t = compute_percent tbl t \<and>
         compute_summary_stats (drop_missing tbl ''Education Level'') v =
           compute_summary_stats tbl v"
proof -
  define lab where "lab = series_map (map (at_col df edu_col) (rows df)) labels"
  define vals where "vals = map (\<lambda>v. if v \<in> set order then v else NaN) lab"
  define df1 where "df1 = setitem df label_col Plain lab"
  define out where "out = setitem df1 label_col (Categorical order True) vals"
  have res: "map_and_order_edu df edu_col label_col labels order = Inr out"
    unfolding out_def df1_def vals_def lab_def by (rule map_and_order_edu_result [OF assms])
  have wf1: "wf_frame df1" unfolding df1_def by (rule setitem_wf [OF assms(1)])
  have llab: "length lab = length (rows df)" by (simp add: lab_def series_map_def)
  then have l1: "length (rows df1) = length (rows df)" unfolding df1_def by (rule setitem_length)
  with llab have len1: "length vals = length (rows df1)" by (simp add: vals_def)
  then have "length (rows out) = length (rows df1)" unfolding out_def by (rule setitem_length)
  with l1 have len: "length (rows out) = length (rows df)" by simp
  have miss: "at_col out label_col (rows out ! i) = NaN"
    if i: "i < length (rows df)" and un: "labels (at_col df edu_col (rows df ! i)) = None" for i
  proof -
    from i len1 l1 have iv: "i < length vals" by simp
    have "lab ! i = NaN" using i un by (simp add: lab_def series_map_def)
    then have "vals ! i = NaN" using iv assms(4) by (simp add: vals_def)
    moreover have "at_col out label_col (rows out ! i) = vals ! i"
      unfolding out_def by (rule setitem_cell [OF wf1 len1 iv])
    ultimately show ?thesis by simp
  qed
  show ?thesis
    apply (intro conjI exI [of _ out] allI impI)
        apply (rule res)
       apply (rule len)
      apply (erule (1) miss)
     apply (rule compute_percent_drop_missing)
    apply (rule compute_summary_stats_drop_missing)
    done
qed

lemma unmapped_df_facts:
  "wf_frame unmapped_df" "''Edu_code'' \<in> set (columns unmapped_df)"
  by (simp_all add: wf_frame_def unmapped_df_def columns_def)

lemma unmapped_df_categorized:
  "map_and_order_edu unmapped_df ''Edu_code'' ''Education Level'' EDU_LABELS EDU_ORDER =
     Inr unmapped_categorized"
  by code_simp

lemma compute_percent_unmapped:
  "compute_percent unmapped_categorized ''Target'' =
     Inr \<lparr>cols = [(''Parent'', Plain), (''Education Level'', Categorical EDU_ORDER True),
                  (''Target'', Plain), (''Count'', Plain), (''Percent'', Plain)],
          rows = [(Num 0, [Str ''Father'', Str ''Some Level of Elementary School'',
                           Str ''Graduate'', Num 1, Num 100]),
                  (Num 1, [Str ''Father'', Str ''Completed Elementary School'',
                           Str ''Dropout'', Num 1, Num 100]),
                  (Num 2, [Str ''Mother'', Str ''Some Level of Elementary School'',
                           Str ''Graduate'', Num 1, Num 100])]\<rparr>"
  by code_simp

theorem unmapped_codes_missing_and_excluded_witness:
  "(\<exists>out. map_and_order_edu unmapped_df ''Edu_code'' ''Education Level'' EDU_LABELS EDU_ORDER = Inr out \<and>
      length (rows out) = length (rows unmapped_df) \<and>
      (\<forall>i<length (rows unmapped_df).
         EDU_LABELS (at_col unmapped_df ''Edu_code'' (rows unmapped_df ! i)) = None \<longrightarrow>
         at_col out ''Education Level'' (rows out ! i) = NaN)) \<and>
   compute_percent (drop_missing unmapped_categorized ''Education Level'') ''Target'' =
     compute_percent unmapped_categorized ''Target'' \<and>
   compute_summary_stats (drop_missing unmapped_categorized ''Education Level'') ''Edu_code'' =
     compute_summary_stats unmapped_categorized ''Edu_code'' \<and>
   EDU_LABELS (at_col unmapped_df ''Edu_code'' (rows unmapped_df ! 1)) = None"
proof -
  have "EDU_LABELS (at_col unmapped_df ''Edu_code'' (rows unmapped_df ! 1)) = None"
    by (simp add: unmapped_df_def at_col_def col_pos_def columns_def cell_at_def EDU_LABELS_def)
  moreover note unmapped_codes_missing_and_excluded [OF unmapped_df_facts
      conjunct1 [OF EDU_ORDER_ok] conjunct2 [OF EDU_ORDER_ok],
      of "''Education Level''" EDU_LABELS unmapped_categorized "''Target''" "''Edu_code''"]
  ultimately show ?thesis by (simp only: simp_thms)
qed

section \<open>Properties of the object reading\<close>

lemma length_setitem_obj [simp]: "length (setitem_obj s q c d vals) = length s"
  by (simp add: setitem_obj_def)

lemma add_percent_obj_frame:
  assumes "add_percent_obj s q = Inr s'"
  shows "length s' = length s" and "r \<noteq> q \<Longrightarrow> s' ! r = s ! r"
  using assms by (auto simp: add_percent_obj_def setitem_obj_def split: sum.splits)

text \<open>
  Claim C8. Called on a table of the store, \<^verbatim>\<open>compute_percent\<close> and
  \<^verbatim>\<open>compute_summary_stats\<close> leave every frame that existed before the call as it was
  (columns, rows and values), the argument included, whether they return or raise; the
  table they return is a new object, not one that existed before.
\<close>

theorem aggregations_do_not_mutate:
  assumes "df < length s"
  shows "preserves s (compute_percent_obj s df t) \<and>
         preserves s (compute_summary_stats_obj s df v)"
proof
  show "preserves s (compute_percent_obj s df t)"
  proof (cases "groupby (s ! df) [''Parent'', ''Education Level'', t]")
    case (Inl e)
    then show ?thesis by (simp add: compute_percent_obj_def preserves_def)
  next
    case g: (Inr g)
    show ?thesis
    proof (cases "reset_index_name (size_groups g) ''Count''")
      case (Inl e)
      with g show ?thesis by (simp add: compute_percent_obj_def preserves_def)
    next
      case f: (Inr f)
      show ?thesis
      proof (cases "add_percent_obj (s @ [f]) (length s)")
        case (Inl e)
        with g f show ?thesis
          by (simp add: compute_percent_obj_def preserves_def new_frame_def nth_append)
      next
        case (Inr s2)
        from add_percent_obj_frame [OF Inr] have "length s2 = Suc (length s)"
          and "\<And>r. r < length s \<Longrightarrow> s2 ! r = s ! r"
          by (simp_all add: nth_append)
        with g f Inr show ?thesis
          by (simp add: compute_percent_obj_def preserves_def new_frame_def)
      qed
    qed
  qed
next
  show "preserves s (compute_summary_stats_obj s df v)"
    unfolding compute_summary_stats_obj_def preserves_def new_frame_def
    by (auto simp: nth_append setitem_obj_def Let_def split: sum.splits)
qed


theorem aggregations_do_not_mutate_witness:
  "0 < length [percent_df] \<and>
   preserves [percent_df] (compute_percent_obj [percent_df] 0 ''Target'') \<and>
   preserves [percent_df] (compute_summary_stats_obj [percent_df] 0 ''Age'')"
  using aggregations_do_not_mutate [of 0 "[percent_df]" "''Target''" "''Age''"] by simp

text \<open>The two readings agree: the frame a call returns is the one computed on values.\<close>

lemma add_percent_obj_value:
  "add_percent_obj s q =
     (case add_percent (s ! q) of Inl e \<Rightarrow> Inl e | Inr f \<Rightarrow> Inr (s[q := f]))"
  by (simp add: add_percent_obj_def add_percent_def setitem_obj_def split: sum.splits)

lemma compute_percent_obj_value:
  "compute_percent (s ! df) t = Inr out \<Longrightarrow>
     compute_percent_obj s df t = (Inr (length s), s @ [out])"
  "compute_percent (s ! df) t = Inl e \<Longrightarrow> fst (compute_percent_obj s df t) = Inl e"
  by (auto simp: compute_percent_obj_def compute_percent_def new_frame_def
        add_percent_obj_value split: sum.splits)

lemma compute_percent_obj_percent_df:
  "compute_percent_obj [percent_df] 0 ''Target'' =
     (Inr 1,
      [percent_df,
       \<lparr>cols = [(''Parent'', Plain), (''Education Level'', Plain), (''Target'', Plain),
                (''Count'', Plain), (''Percent'', Plain)],
        rows = [(Num 0, [Str ''Father'', Str ''Test Level'', Str ''A'', Num 1, Num 50]),
                (Num 1, [Str ''Father'', Str ''Test Level'', Str ''B'', Num 1, Num 50]),
                (Num 2, [Str ''Mother'', Str ''Test Level'', Str ''A'', Num 1, Num 50]),
                (Num 3, [Str ''Mother'', Str ''Test Level'', Str ''B'', Num 1, Num 50])]\<rparr>])"
  by code_simp

text \<open>In contrast, the categorizer changes the frame it is given and returns it.\<close>

lemma map_and_order_edu_obj_in_place:
  "map_and_order_edu_obj [unmapped_df] 0 ''Edu_code'' ''Education Level'' EDU_LABELS EDU_ORDER =
     (Inr 0, [unmapped_categorized])"
  by code_simp

lemma map_and_order_edu_obj_mutates:
  "\<not> preserves [unmapped_df]
       (map_and_order_edu_obj [unmapped_df] 0 ''Edu_code'' ''Education Level'' EDU_LABELS EDU_ORDER)"
  unfolding map_and_order_edu_obj_in_place
  by (simp add: preserves_def unmapped_df_def unmapped_categorized_def)

end
